theory Spec2Isabelle
  imports Complex_Main "HOL-Library.Word" "HOL-Library.Signed_Division" "HOL-Library.Multiset"
begin

unbundle bit_operations_syntax

section \<open>Errors and panics\<close>

text \<open>
  A Go function either returns normally, returns an \<open>error\<close> value, or panics. All three
  are values of the model: a result is \<open>error + 'a\<close>, with \<open>Inl\<close> for the error or panic.
  \<open>ErrNoRows\<close> stands for \<open>sql.ErrNoRows\<close> and \<open>mongo.ErrNoDocuments\<close>, \<open>DuplicateKey\<close>
  for the unique-constraint violation a backend reports (the errors for which
  \<open>mongo.IsDuplicateKeyError\<close> holds), \<open>Backend m\<close> for any other error of the backend with
  message \<open>m\<close>, and \<open>errors_New m\<close> for \<open>errors.New(m)\<close> and \<open>fmt.Errorf\<close>.
\<close>

datatype error =
    Panic string
  | ErrNoRows
  | DuplicateKey
  | Backend string
  | errors_New string

section \<open>Embedding byte encoding\<close>

text \<open>
  A \<open>float32\<close> is represented by its IEEE-754 bit pattern, a 32-bit word:
  \<open>math.Float32bits\<close> and \<open>math.Float32frombits\<close> reinterpret the bits and are the
  identity on this representation. A slice result that the code may return as \<open>nil\<close> is an
  \<open>option\<close>, with \<open>None\<close> for \<open>nil\<close>; \<open>elems\<close> reads such a slice as Go's \<open>len\<close>, indexing and
  \<open>range\<close> do (a nil slice has no elements).
\<close>

type_synonym byte = "8 word"
type_synonym float32 = "32 word"

definition Float32bits :: "float32 \<Rightarrow> 32 word" where
  "Float32bits f = f"

definition Float32frombits :: "32 word \<Rightarrow> float32" where
  "Float32frombits u = u"

definition elems :: "'a list option \<Rightarrow> 'a list" where
  "elems s = (case s of None \<Rightarrow> [] | Some xs \<Rightarrow> xs)"

text \<open>
  \<open>binary.LittleEndian.PutUint32(b[off:], v)\<close> writes four bytes into the array shared
  with \<open>b\<close>; it panics unless \<open>b[off:]\<close> has four bytes. \<open>binary.LittleEndian.Uint32(b)\<close>
  reads the first four bytes of \<open>b\<close> and panics on a shorter slice.
\<close>

definition LittleEndian_PutUint32 :: "byte list \<Rightarrow> nat \<Rightarrow> 32 word \<Rightarrow> error + byte list" where
  "LittleEndian_PutUint32 b off v =
     (if off + 3 < length b
      then Inr (b[off := ucast v,
                  off + 1 := ucast (drop_bit 8 v),
                  off + 2 := ucast (drop_bit 16 v),
                  off + 3 := ucast (drop_bit 24 v)])
      else Inl (Panic ''index out of range''))"

definition LittleEndian_Uint32 :: "byte list \<Rightarrow> error + 32 word" where
  "LittleEndian_Uint32 b =
     (case b of
        b0 # b1 # b2 # b3 # _ \<Rightarrow>
          Inr (ucast b0 OR push_bit 8 (ucast b1) OR push_bit 16 (ucast b2) OR push_bit 24 (ucast b3))
      | _ \<Rightarrow> Inl (Panic ''index out of range''))"

text \<open>\<open>encodeEmbedding\<close> (memori/augmentation.go): the loop \<open>for i, f := range v\<close>.\<close>

function encodeEmbedding_loop :: "float32 list \<Rightarrow> nat \<Rightarrow> byte list \<Rightarrow> error + byte list" where
  "encodeEmbedding_loop v i b =
     (if i < length v
      then (case LittleEndian_PutUint32 b (i * 4) (Float32bits (v ! i)) of
              Inl e \<Rightarrow> Inl e
            | Inr b' \<Rightarrow> encodeEmbedding_loop v (i + 1) b')
      else Inr b)"
  by pat_completeness auto
termination
  by (relation "measure (\<lambda>(v, i, b). length v - i)") auto

definition encodeEmbedding :: "float32 list \<Rightarrow> error + byte list option" where
  "encodeEmbedding v =
     (if length v = 0 then Inr None
      else (case encodeEmbedding_loop v 0 (replicate (length v * 4) 0) of
              Inl e \<Rightarrow> Inl e
            | Inr b \<Rightarrow> Inr (Some b)))"

text \<open>\<open>decodeEmbedding\<close> (storage/repos.go): the loop \<open>for i := 0; i < len(out); i++\<close>.\<close>

function decodeEmbedding_loop :: "byte list \<Rightarrow> nat \<Rightarrow> float32 list \<Rightarrow> error + float32 list" where
  "decodeEmbedding_loop b i out =
     (if i < length out
      then (case LittleEndian_Uint32 (drop (i * 4) b) of
              Inl e \<Rightarrow> Inl e
            | Inr u \<Rightarrow> decodeEmbedding_loop b (i + 1) (out[i := Float32frombits u]))
      else Inr out)"
  by pat_completeness auto
termination
  by (relation "measure (\<lambda>(b, i, out). length out - i)") auto

definition decodeEmbedding :: "byte list \<Rightarrow> error + float32 list option" where
  "decodeEmbedding b =
     (if length b = 0 \<or> length b mod 4 \<noteq> 0 then Inr None
      else (case decodeEmbedding_loop b 0 (replicate (length b div 4) 0) of
              Inl e \<Rightarrow> Inl e
            | Inr out \<Rightarrow> Inr (Some out)))"


text \<open>The four bytes that \<open>PutUint32\<close> writes for one word, lowest byte first.\<close>

definition le_bytes :: "32 word \<Rightarrow> byte list" where
  "le_bytes v = [ucast v, ucast (drop_bit 8 v), ucast (drop_bit 16 v), ucast (drop_bit 24 v)]"

section \<open>Cosine similarity\<close>

text \<open>
  Floating-point values are modelled by the real numbers they denote, and float64
  arithmetic by exact real arithmetic: rounding, infinities and NaN are outside the model.
  \<open>float64_of\<close> is Go's conversion \<open>float64(x)\<close> of a float32, which is exact: it reads the
  sign, the 8-bit exponent and the 23-bit mantissa of a finite bit pattern. A pattern
  with exponent 255 (an infinity or a NaN) is not \<open>finite32\<close> and has no real value; the
  function is meant for finite patterns only.
\<close>

type_synonym float64 = real


definition float64_of :: "float32 \<Rightarrow> float64" where
  "float64_of f =
     (let m = unat (f AND 0x7FFFFF);
          e = unat (drop_bit 23 f AND 0xFF);
          s = (if bit f 31 then - 1 else 1)
      in if e = 0 then s * real m / 2 ^ 149
         else s * real (2 ^ 23 + m) * 2 ^ e / 2 ^ 150)"

text \<open>
  \<open>cosineSimilarity\<close> (storage/repos.go). The loop \<open>for i := range a\<close> updates the three
  accumulators \<open>dot\<close>, \<open>na\<close>, \<open>nb\<close>; the guard before it makes \<open>b[i]\<close> an index in range.
\<close>

definition cosineSimilarity :: "float32 list \<Rightarrow> float32 list \<Rightarrow> float64" where
  "cosineSimilarity a b =
     (if length a = 0 \<or> length b = 0 \<or> length a \<noteq> length b then 0
      else
        (let (dot, na, nb) =
               fold (\<lambda>i (dot, na, nb).
                       (let fa = float64_of (a ! i); fb = float64_of (b ! i)
                        in (dot + fa * fb, na + fa * fa, nb + fb * fb)))
                    [0..<length a] (0, 0, 0)
         in if na = 0 \<or> nb = 0 then 0
            else dot / (sqrt na * sqrt nb)))"

text \<open>
  \<open>CosineSimilarity\<close> (embed/interface.go), which \<open>memori.CosineSimilarity\<close> forwards to.
  Its last line divides by the product of the two sums of squares.
\<close>

definition CosineSimilarity :: "float32 list \<Rightarrow> float32 list \<Rightarrow> float64" where
  "CosineSimilarity a b =
     (if length a \<noteq> length b then 0.0
      else
        (let (dotProduct, normA, normB) =
               fold (\<lambda>i (dotProduct, normA, normB).
                       (dotProduct + float64_of (a ! i) * float64_of (b ! i),
                        normA + float64_of (a ! i) * float64_of (a ! i),
                        normB + float64_of (b ! i) * float64_of (b ! i)))
                    [0..<length a] (0, 0, 0)
         in if normA = 0 \<or> normB = 0 then 0.0
            else dotProduct / (normA * normB)))"

section \<open>Hash embedding\<close>

text \<open>
  A Go string is a sequence of bytes, an Isabelle \<open>string\<close>; \<open>len\<close> is \<open>length\<close>.
  \<open>for i, r := range text\<close> decodes the UTF-8 text rune by rune: \<open>i\<close> is the byte offset
  at which the rune starts and \<open>r\<close> its code point, \<open>0xFFFD\<close> with width 1 for a byte
  that starts no valid encoding. \<open>DecodeRune\<close> is \<open>utf8.DecodeRuneInString\<close> on the byte
  values of a non-empty string, \<open>EncodeRune\<close> the conversion \<open>[]byte(string(r))\<close>.
\<close>

definition RuneError :: nat where
  "RuneError = 0xFFFD"

definition cont :: "nat \<Rightarrow> bool" where
  "cont c \<longleftrightarrow> 0x80 \<le> c \<and> c \<le> 0xBF"

fun DecodeRune :: "nat list \<Rightarrow> nat \<times> nat" where
  "DecodeRune [] = (RuneError, 0)"
| "DecodeRune (s0 # s) =
     (if s0 < 0x80 then (s0, 1)
      else if s0 < 0xC2 \<or> 0xF4 < s0 then (RuneError, 1)
      else if s0 < 0xE0 then
        (case s of
           s1 # _ \<Rightarrow> if cont s1 then ((s0 mod 32) * 64 + s1 mod 64, 2) else (RuneError, 1)
         | _ \<Rightarrow> (RuneError, 1))
      else if s0 < 0xF0 then
        (case s of
           s1 # s2 # _ \<Rightarrow>
             if (if s0 = 0xE0 then 0xA0 else 0x80) \<le> s1 \<and> s1 \<le> (if s0 = 0xED then 0x9F else 0xBF)
                \<and> cont s2
             then ((s0 mod 16) * 4096 + (s1 mod 64) * 64 + s2 mod 64, 3)
             else (RuneError, 1)
         | _ \<Rightarrow> (RuneError, 1))
      else
        (case s of
           s1 # s2 # s3 # _ \<Rightarrow>
             if (if s0 = 0xF0 then 0x90 else 0x80) \<le> s1 \<and> s1 \<le> (if s0 = 0xF4 then 0x8F else 0xBF)
                \<and> cont s2 \<and> cont s3
             then ((s0 mod 8) * 262144 + (s1 mod 64) * 4096 + (s2 mod 64) * 64 + s3 mod 64, 4)
             else (RuneError, 1)
         | _ \<Rightarrow> (RuneError, 1)))"

definition EncodeRune :: "nat \<Rightarrow> nat list" where
  "EncodeRune r =
     (if r < 0x80 then [r]
      else if r < 0x800 then [0xC0 + r div 64, 0x80 + r mod 64]
      else if 0x10FFFF < r \<or> (0xD800 \<le> r \<and> r \<le> 0xDFFF) then [0xEF, 0xBF, 0xBD]
      else if r < 0x10000 then [0xE0 + r div 4096, 0x80 + (r div 64) mod 64, 0x80 + r mod 64]
      else [0xF0 + r div 262144, 0x80 + (r div 4096) mod 64, 0x80 + (r div 64) mod 64,
            0x80 + r mod 64])"

text \<open>
  \<open>hash/fnv\<close>, 64-bit FNV-1a: \<open>Reset\<close> sets the state to the offset basis, \<open>Write\<close> folds
  each byte in with exclusive-or and a multiplication modulo \<open>2^64\<close>, \<open>Sum64\<close> reads the
  state.
\<close>

definition offset64 :: "64 word" where
  "offset64 = 14695981039346656037"

definition prime64 :: "64 word" where
  "prime64 = 1099511628211"

definition fnv64a_Write :: "64 word \<Rightarrow> nat list \<Rightarrow> 64 word" where
  "fnv64a_Write h p = fold (\<lambda>c hash. (hash XOR of_nat c) * prime64) p h"

text \<open>
  The value added for one rune: \<open>val := int64(h.Sum64())\<close> reads the hash as a signed
  64-bit integer, \<open>val % 1000\<close> is Go's remainder, which has the sign of \<open>val\<close>, and the
  quotient by \<open>1000.0\<close> is taken as a real number (the accumulator's float32 rounding is
  not modelled).
\<close>

definition contribution :: "nat \<Rightarrow> real" where
  "contribution r =
     (let val = sint (fnv64a_Write offset64 (EncodeRune r))
      in real_of_int (val smod 1000) / 1000)"

text \<open>
  \<open>embedText\<close>: the loop over the runes of the text, from byte offset \<open>i\<close>, on the
  accumulator \<open>v\<close> of \<open>dimen\<close> components (\<open>dim\<close> in the source). \<open>i % dim\<close> panics for
  \<open>dim = 0\<close>. The width of a decoded rune is at least 1, so \<open>max 1 w\<close> is \<open>w\<close>.
\<close>

function embedText_loop :: "nat \<Rightarrow> nat \<Rightarrow> nat list \<Rightarrow> real list \<Rightarrow> error + real list" where
  "embedText_loop dimen i s v =
     (if s = [] then Inr v
      else
        (let (r, w) = DecodeRune s
         in if dimen = 0 then Inl (Panic ''integer divide by zero'')
            else (let idx = i mod dimen
                  in embedText_loop dimen (i + w) (drop (max 1 w) s)
                       (v[idx := v ! idx + contribution r]))))"
  by pat_completeness auto
termination
  by (relation "measure (\<lambda>(dimen, i, s, v). length s)") auto

text \<open>\<open>embedText\<close> of package memori (memori/embed.go), with \<open>const dim = 64\<close>.\<close>

definition embedText :: "string \<Rightarrow> error + real list" where
  "embedText text =
     (let dimen = 64; v = replicate dimen 0
      in if text = [] then Inr v
         else embedText_loop dimen 0 (map of_char text) v)"

text \<open>
  \<open>HashEmbedder.embedText\<close> (embed/hash_embedder.go); \<open>NewHashEmbedder\<close> is the only
  constructor and sets the dimension to 64.
\<close>

record HashEmbedder =
  dimension :: nat

definition NewHashEmbedder :: HashEmbedder where
  "NewHashEmbedder = \<lparr>dimension = 64\<rparr>"

definition HashEmbedder_embedText :: "HashEmbedder \<Rightarrow> string \<Rightarrow> error + real list" where
  "HashEmbedder_embedText e text =
     (let v = replicate (dimension e) 0
      in if text = [] then Inr v
         else embedText_loop (dimension e) 0 (map of_char text) v)"

section \<open>The storage backend\<close>

text \<open>
  The database behind the repositories is a record of its tables, each a list of rows in
  insertion order. The repositories reach it through \<open>*sql.DB\<close> (dialects \<open>sqlite\<close> and
  \<open>postgres\<close>) or \<open>*mongo.Database\<close> (dialect \<open>mongodb\<close>). Besides the tables the record
  holds what the calls depend on: the wall clock read by \<open>time.Now()\<close> (nanoseconds), the
  counters from which ids are drawn, a schedule of faults, and the log of the statements
  sent. Each statement takes the next entry of the schedule: \<open>Some m\<close> makes it fail with
  the backend error of message \<open>m\<close> and no effect, \<open>None\<close> or an exhausted schedule lets it
  run. The columns \<open>uuid\<close> that hold a fresh random value (\<open>uuid.New()\<close>) are left out.

  Modelled from the spec: the relational schema (\<open>sqliteMigrations\<close>, \<open>postgresMigrations\<close>)
  is not among the sources. Following the persisted record shapes of the specification
  and the index list of \<open>mongoMigrations\<close>, \<open>external_id\<close> is unique in \<open>memori_entity\<close> and
  \<open>memori_process\<close>, \<open>uuid\<close> is unique in \<open>memori_session\<close>, the pair \<open>(entity_id, uniq)\<close> is
  unique in \<open>memori_entity_fact\<close>, and \<open>id\<close> is assigned by the backend from a counter.
  The schema is the migrated one (\<open>Build\<close> has run).
\<close>

datatype dialect = Sqlite | Postgres | Mongodb

record ext_row =
  e_id :: int
  e_external_id :: string
  e_date_created :: int

record session_row =
  s_id :: int
  s_uuid :: string
  s_entity_id :: "int option"
  s_process_id :: "int option"
  s_date_created :: int

record conversation_row =
  c_id :: int
  c_session_id :: int
  c_date_created :: int
  c_summary :: "string option"
  c_date_updated :: "int option"

record message_row =
  m_conversation_id :: int
  m_role :: string
  m_type :: string
  m_content :: string
  m_date_created :: int

record fact_row =
  f_entity_id :: int
  f_content :: string
  f_content_embedding :: "byte list"
  f_num_times :: int
  f_date_last_time :: int
  f_uniq :: string
  f_date_created :: int
  f_date_updated :: "int option"

record backend =
  dialect :: dialect
  clock :: int
  faults :: "string option list"
  statements :: "string list"
  seqs :: "string \<Rightarrow> int"
  memori_entity :: "ext_row list"
  memori_process :: "ext_row list"
  memori_session :: "session_row list"
  memori_conversation :: "conversation_row list"
  memori_conversation_message :: "message_row list"
  memori_entity_fact :: "fact_row list"

text \<open>A migrated database with empty tables, a clock at 0 and no scheduled fault.\<close>

definition fresh_backend :: "dialect \<Rightarrow> backend" where
  "fresh_backend d =
     \<lparr>dialect = d, clock = 0, faults = [], statements = [], seqs = (\<lambda>_. 0),
      memori_entity = [], memori_process = [], memori_session = [], memori_conversation = [],
      memori_conversation_message = [], memori_entity_fact = []\<rparr>"

text \<open>One statement sent to the backend: it is logged and takes the next scheduled fault.\<close>

definition call :: "string \<Rightarrow> backend \<Rightarrow> error option \<times> backend" where
  "call stmt db =
     (let db' = db\<lparr>statements := statements db @ [stmt]\<rparr>
      in case faults db of
           [] \<Rightarrow> (None, db')
         | None # fs \<Rightarrow> (None, db'\<lparr>faults := fs\<rparr>)
         | Some m # fs \<Rightarrow> (Some (Backend m), db'\<lparr>faults := fs\<rparr>))"

text \<open>The next statement sent to the backend is not scheduled to fail.\<close>

definition no_fault :: "backend \<Rightarrow> bool" where
  "no_fault db \<longleftrightarrow> (case faults db of Some m # _ \<Rightarrow> False | _ \<Rightarrow> True)"

text \<open>\<open>nextSeq\<close> (storage/repos.go): the counter document of a collection, incremented and read.\<close>

definition nextSeq :: "string \<Rightarrow> backend \<Rightarrow> (error + int) \<times> backend" where
  "nextSeq name db =
     (case call ''findOneAndUpdate memori_counters'' db of
        (Some err, db') \<Rightarrow> (Inl err, db')
      | (None, db') \<Rightarrow>
          (let seq = seqs db' name + 1
           in (Inr seq, db'\<lparr>seqs := (seqs db')(name := seq)\<rparr>)))"

subsection \<open>Identity and process repositories\<close>

text \<open>A query for the id of the row with a given external id; the first match is returned.\<close>

definition select_external :: "string \<Rightarrow> ext_row list \<Rightarrow> string \<Rightarrow> backend \<Rightarrow> (error + int) \<times> backend" where
  "select_external stmt rows externalID db =
     (case call stmt db of
        (Some err, db') \<Rightarrow> (Inl err, db')
      | (None, db') \<Rightarrow>
          (case find (\<lambda>r. e_external_id r = externalID) rows of
             None \<Rightarrow> (Inl ErrNoRows, db')
           | Some r \<Rightarrow> (Inr (e_id r), db')))"

definition sqlEntityRepo_GetByExternalID :: "string \<Rightarrow> backend \<Rightarrow> (error + int) \<times> backend" where
  "sqlEntityRepo_GetByExternalID externalID db =
     select_external ''SELECT id FROM memori_entity'' (memori_entity db) externalID db"

text \<open>The statement \<open>INSERT INTO memori_entity ... RETURNING id\<close>.\<close>

definition sql_insert_entity :: "string \<Rightarrow> backend \<Rightarrow> (error + int) \<times> backend" where
  "sql_insert_entity externalID db =
     (case call ''INSERT INTO memori_entity'' db of
        (Some err, db') \<Rightarrow> (Inl err, db')
      | (None, db') \<Rightarrow>
          if externalID \<in> set (map e_external_id (memori_entity db')) then (Inl DuplicateKey, db')
          else
            (let rid = seqs db' ''memori_entity'' + 1
             in (Inr rid,
                 db'\<lparr>seqs := (seqs db')(''memori_entity'' := rid),
                     memori_entity := memori_entity db' @
                       [\<lparr>e_id = rid, e_external_id = externalID, e_date_created = clock db'\<rparr>]\<rparr>)))"

definition sqlEntityRepo_Create :: "string \<Rightarrow> backend \<Rightarrow> (error + int) \<times> backend" where
  "sqlEntityRepo_Create externalID db =
     (case sqlEntityRepo_GetByExternalID externalID db of
        (Inr rid, db1) \<Rightarrow> (Inr rid, db1)
      | (Inl _, db1) \<Rightarrow>
          (case sql_insert_entity externalID db1 of
             (Inl err, db2) \<Rightarrow> sqlEntityRepo_GetByExternalID externalID db2
           | (Inr rid, db2) \<Rightarrow> (Inr rid, db2)))"

definition sqlProcessRepo_GetByExternalID :: "string \<Rightarrow> backend \<Rightarrow> (error + int) \<times> backend" where
  "sqlProcessRepo_GetByExternalID externalID db =
     select_external ''SELECT id FROM memori_process'' (memori_process db) externalID db"

definition sql_insert_process :: "string \<Rightarrow> backend \<Rightarrow> (error + int) \<times> backend" where
  "sql_insert_process externalID db =
     (case call ''INSERT INTO memori_process'' db of
        (Some err, db') \<Rightarrow> (Inl err, db')
      | (None, db') \<Rightarrow>
          if externalID \<in> set (map e_external_id (memori_process db')) then (Inl DuplicateKey, db')
          else
            (let rid = seqs db' ''memori_process'' + 1
             in (Inr rid,
                 db'\<lparr>seqs := (seqs db')(''memori_process'' := rid),
                     memori_process := memori_process db' @
                       [\<lparr>e_id = rid, e_external_id = externalID, e_date_created = clock db'\<rparr>]\<rparr>)))"

definition sqlProcessRepo_Create :: "string \<Rightarrow> backend \<Rightarrow> (error + int) \<times> backend" where
  "sqlProcessRepo_Create externalID db =
     (case sql_insert_process externalID db of
        (Inl err, db1) \<Rightarrow> sqlProcessRepo_GetByExternalID externalID db1
      | (Inr rid, db1) \<Rightarrow> (Inr rid, db1))"

definition mongoEntityRepo_GetByExternalID :: "string \<Rightarrow> backend \<Rightarrow> (error + int) \<times> backend" where
  "mongoEntityRepo_GetByExternalID externalID db =
     select_external ''FindOne memori_entity'' (memori_entity db) externalID db"

text \<open>\<open>InsertOne\<close> of a document with the given \<open>id\<close> into \<open>memori_entity\<close>.\<close>

definition mongo_insert_entity :: "int \<Rightarrow> string \<Rightarrow> backend \<Rightarrow> error option \<times> backend" where
  "mongo_insert_entity seq externalID db =
     (case call ''InsertOne memori_entity'' db of
        (Some err, db') \<Rightarrow> (Some err, db')
      | (None, db') \<Rightarrow>
          if externalID \<in> set (map e_external_id (memori_entity db')) then (Some DuplicateKey, db')
          else (None,
                db'\<lparr>memori_entity := memori_entity db' @
                      [\<lparr>e_id = seq, e_external_id = externalID, e_date_created = clock db'\<rparr>]\<rparr>))"

definition IsDuplicateKeyError :: "error \<Rightarrow> bool" where
  "IsDuplicateKeyError err \<longleftrightarrow> err = DuplicateKey"

definition mongoEntityRepo_Create :: "string \<Rightarrow> backend \<Rightarrow> (error + int) \<times> backend" where
  "mongoEntityRepo_Create externalID db =
     (case mongoEntityRepo_GetByExternalID externalID db of
        (Inr rid, db1) \<Rightarrow> (Inr rid, db1)
      | (Inl _, db1) \<Rightarrow>
          (case nextSeq ''memori_entity'' db1 of
             (Inl err, db2) \<Rightarrow> (Inl err, db2)
           | (Inr seq, db2) \<Rightarrow>
               (case mongo_insert_entity seq externalID db2 of
                  (Some err, db3) \<Rightarrow>
                    if IsDuplicateKeyError err then mongoEntityRepo_GetByExternalID externalID db3
                    else (Inl err, db3)
                | (None, db3) \<Rightarrow> (Inr seq, db3))))"

definition mongoProcessRepo_GetByExternalID :: "string \<Rightarrow> backend \<Rightarrow> (error + int) \<times> backend" where
  "mongoProcessRepo_GetByExternalID externalID db =
     select_external ''FindOne memori_process'' (memori_process db) externalID db"

definition mongo_insert_process :: "int \<Rightarrow> string \<Rightarrow> backend \<Rightarrow> error option \<times> backend" where
  "mongo_insert_process seq externalID db =
     (case call ''InsertOne memori_process'' db of
        (Some err, db') \<Rightarrow> (Some err, db')
      | (None, db') \<Rightarrow>
          if externalID \<in> set (map e_external_id (memori_process db')) then (Some DuplicateKey, db')
          else (None,
                db'\<lparr>memori_process := memori_process db' @
                      [\<lparr>e_id = seq, e_external_id = externalID, e_date_created = clock db'\<rparr>]\<rparr>))"

definition mongoProcessRepo_Create :: "string \<Rightarrow> backend \<Rightarrow> (error + int) \<times> backend" where
  "mongoProcessRepo_Create externalID db =
     (case mongoProcessRepo_GetByExternalID externalID db of
        (Inr rid, db1) \<Rightarrow> (Inr rid, db1)
      | (Inl _, db1) \<Rightarrow>
          (case nextSeq ''memori_process'' db1 of
             (Inl err, db2) \<Rightarrow> (Inl err, db2)
           | (Inr seq, db2) \<Rightarrow>
               (case mongo_insert_process seq externalID db2 of
                  (Some err, db3) \<Rightarrow>
                    if IsDuplicateKeyError err then mongoProcessRepo_GetByExternalID externalID db3
                    else (Inl err, db3)
                | (None, db3) \<Rightarrow> (Inr seq, db3))))"

subsection \<open>Session and conversation repositories\<close>

definition select_session :: "string \<Rightarrow> string \<Rightarrow> backend \<Rightarrow> (error + int) \<times> backend" where
  "select_session stmt sessionUUID db =
     (case call stmt db of
        (Some err, db') \<Rightarrow> (Inl err, db')
      | (None, db') \<Rightarrow>
          (case find (\<lambda>r. s_uuid r = sessionUUID) (memori_session db') of
             None \<Rightarrow> (Inl ErrNoRows, db')
           | Some r \<Rightarrow> (Inr (s_id r), db')))"

definition sqlSessionRepo_GetByUUID :: "string \<Rightarrow> backend \<Rightarrow> (error + int) \<times> backend" where
  "sqlSessionRepo_GetByUUID sessionUUID db = select_session ''SELECT id FROM memori_session'' sessionUUID db"

definition mongoSessionRepo_GetByUUID :: "string \<Rightarrow> backend \<Rightarrow> (error + int) \<times> backend" where
  "mongoSessionRepo_GetByUUID sessionUUID db = select_session ''FindOne memori_session'' sessionUUID db"

text \<open>The insertion of a session row with a given id, refused when the \<open>uuid\<close> is present.\<close>

definition insert_session ::
  "string \<Rightarrow> int \<Rightarrow> int option \<Rightarrow> int option \<Rightarrow> string \<Rightarrow> backend \<Rightarrow> error option \<times> backend" where
  "insert_session stmt rid entityID processID sessionUUID db =
     (case call stmt db of
        (Some err, db') \<Rightarrow> (Some err, db')
      | (None, db') \<Rightarrow>
          if sessionUUID \<in> set (map s_uuid (memori_session db')) then (Some DuplicateKey, db')
          else (None,
                db'\<lparr>memori_session := memori_session db' @
                      [\<lparr>s_id = rid, s_uuid = sessionUUID, s_entity_id = entityID,
                        s_process_id = processID, s_date_created = clock db'\<rparr>]\<rparr>))"

definition sqlSessionRepo_Create ::
  "int option \<Rightarrow> int option \<Rightarrow> string \<Rightarrow> backend \<Rightarrow> (error + int) \<times> backend" where
  "sqlSessionRepo_Create entityID processID sessionUUID db =
     (let rid = seqs db ''memori_session'' + 1
      in case insert_session ''INSERT INTO memori_session'' rid entityID processID sessionUUID db of
           (Some err, db1) \<Rightarrow> sqlSessionRepo_GetByUUID sessionUUID db1
         | (None, db1) \<Rightarrow> (Inr rid, db1\<lparr>seqs := (seqs db1)(''memori_session'' := rid)\<rparr>))"

definition mongoSessionRepo_Create ::
  "int option \<Rightarrow> int option \<Rightarrow> string \<Rightarrow> backend \<Rightarrow> (error + int) \<times> backend" where
  "mongoSessionRepo_Create entityID processID sessionUUID db =
     (case mongoSessionRepo_GetByUUID sessionUUID db of
        (Inr rid, db1) \<Rightarrow> (Inr rid, db1)
      | (Inl _, db1) \<Rightarrow>
          (case nextSeq ''memori_session'' db1 of
             (Inl err, db2) \<Rightarrow> (Inl err, db2)
           | (Inr seq, db2) \<Rightarrow>
               (case insert_session ''InsertOne memori_session'' seq entityID processID sessionUUID db2 of
                  (Some err, db3) \<Rightarrow> (Inl err, db3)
                | (None, db3) \<Rightarrow> (Inr seq, db3))))"

text \<open>
  The most recent conversation of a session (\<open>ORDER BY date_created DESC LIMIT 1\<close>, or the
  sort option of \<open>FindOne\<close>): the first row of the session with the greatest creation
  time. Times are nanoseconds; the stored creation time always decodes.
\<close>

definition latest_conversation :: "int \<Rightarrow> conversation_row list \<Rightarrow> conversation_row option" where
  "latest_conversation sessionID rows =
     fold (\<lambda>r best. case best of
                       None \<Rightarrow> Some r
                     | Some b \<Rightarrow> if c_date_created b < c_date_created r then Some r else Some b)
          (filter (\<lambda>r. c_session_id r = sessionID) rows) None"

definition Minute :: int where
  "Minute = 60 * 1000000000"

definition Millisecond :: int where
  "Millisecond = 1000000"

definition select_latest_conversation ::
  "string \<Rightarrow> int \<Rightarrow> backend \<Rightarrow> (error + conversation_row) \<times> backend" where
  "select_latest_conversation stmt sessionID db =
     (case call stmt db of
        (Some err, db') \<Rightarrow> (Inl err, db')
      | (None, db') \<Rightarrow>
          (case latest_conversation sessionID (memori_conversation db') of
             None \<Rightarrow> (Inl ErrNoRows, db')
           | Some r \<Rightarrow> (Inr r, db')))"

definition sqlConversationRepo_Create :: "int \<Rightarrow> int \<Rightarrow> backend \<Rightarrow> (error + int) \<times> backend" where
  "sqlConversationRepo_Create sessionID timeoutMinutes db =
     (let (existing, db1) = select_latest_conversation ''SELECT id, date_created FROM memori_conversation'' sessionID db;
          reuse = (case existing of
                     Inr r \<Rightarrow> if clock db1 - c_date_created r < timeoutMinutes * Minute
                              then Some (c_id r) else None
                   | Inl _ \<Rightarrow> None)
      in case reuse of
           Some rid \<Rightarrow> (Inr rid, db1)
         | None \<Rightarrow>
             (case call ''INSERT INTO memori_conversation'' db1 of
                (Some err, db2) \<Rightarrow> (Inl err, db2)
              | (None, db2) \<Rightarrow>
                  (let rid = seqs db2 ''memori_conversation'' + 1
                   in (Inr rid,
                       db2\<lparr>seqs := (seqs db2)(''memori_conversation'' := rid),
                           memori_conversation := memori_conversation db2 @
                             [\<lparr>c_id = rid, c_session_id = sessionID, c_date_created = clock db2,
                               c_summary = None, c_date_updated = None\<rparr>]\<rparr>))))"

text \<open>
  In the document store \<open>mongoMigrations\<close> declares a unique index on \<open>session_id\<close> of
  \<open>memori_conversation\<close>: the insertion is refused when the session has a conversation.
\<close>

definition mongoConversationRepo_Create :: "int \<Rightarrow> int \<Rightarrow> backend \<Rightarrow> (error + int) \<times> backend" where
  "mongoConversationRepo_Create sessionID timeoutMinutes db =
     (let (existing, db1) = select_latest_conversation ''FindOne memori_conversation'' sessionID db;
          reuse = (case existing of
                     Inr r \<Rightarrow> if clock db1 - c_date_created r < timeoutMinutes * Minute
                              then Some (c_id r) else None
                   | Inl _ \<Rightarrow> None)
      in case reuse of
           Some rid \<Rightarrow> (Inr rid, db1)
         | None \<Rightarrow>
             (case nextSeq ''memori_conversation'' db1 of
                (Inl err, db2) \<Rightarrow> (Inl err, db2)
              | (Inr seq, db2) \<Rightarrow>
                  (case call ''InsertOne memori_conversation'' db2 of
                     (Some err, db3) \<Rightarrow> (Inl err, db3)
                   | (None, db3) \<Rightarrow>
                       if sessionID \<in> set (map c_session_id (memori_conversation db3))
                       then (Inl DuplicateKey, db3)
                       else (Inr seq,
                             db3\<lparr>memori_conversation := memori_conversation db3 @
                                   [\<lparr>c_id = seq, c_session_id = sessionID, c_date_created = clock db3,
                                     c_summary = None, c_date_updated = None\<rparr>]\<rparr>))))"

subsection \<open>Message repository\<close>

definition insert_message ::
  "string \<Rightarrow> int \<Rightarrow> string \<Rightarrow> string \<Rightarrow> string \<Rightarrow> backend \<Rightarrow> error option \<times> backend" where
  "insert_message stmt conversationID role msgType content db =
     (case call stmt db of
        (Some err, db') \<Rightarrow> (Some err, db')
      | (None, db') \<Rightarrow>
          (None,
           db'\<lparr>memori_conversation_message := memori_conversation_message db' @
                 [\<lparr>m_conversation_id = conversationID, m_role = role, m_type = msgType,
                   m_content = content, m_date_created = clock db'\<rparr>]\<rparr>))"

definition sqlMessageRepo_Create ::
  "int \<Rightarrow> string \<Rightarrow> string \<Rightarrow> string \<Rightarrow> backend \<Rightarrow> error option \<times> backend" where
  "sqlMessageRepo_Create conversationID role msgType content db =
     insert_message ''INSERT INTO memori_conversation_message'' conversationID role msgType content db"

definition mongoMessageRepo_Create ::
  "int \<Rightarrow> string \<Rightarrow> string \<Rightarrow> string \<Rightarrow> backend \<Rightarrow> error option \<times> backend" where
  "mongoMessageRepo_Create conversationID role msgType content db =
     insert_message ''InsertOne memori_conversation_message'' conversationID role msgType content db"

subsection \<open>Fact repository\<close>

text \<open>The first row that satisfies \<open>p\<close> is replaced by its image under \<open>f\<close>.\<close>

fun update_first :: "('a \<Rightarrow> bool) \<Rightarrow> ('a \<Rightarrow> 'a) \<Rightarrow> 'a list \<Rightarrow> 'a list" where
  "update_first p f [] = []"
| "update_first p f (x # xs) = (if p x then f x # xs else x # update_first p f xs)"

definition same_fact :: "int \<Rightarrow> string \<Rightarrow> fact_row \<Rightarrow> bool" where
  "same_fact entityID uniq r \<longleftrightarrow> f_entity_id r = entityID \<and> f_uniq r = uniq"

text \<open>The uniqueness invariant of the fact table: no two rows share \<open>(entity_id, uniq)\<close>.\<close>

definition unique_facts :: "backend \<Rightarrow> bool" where
  "unique_facts db \<longleftrightarrow> distinct (map (\<lambda>r. (f_entity_id r, f_uniq r)) (memori_entity_fact db))"

text \<open>
  \<open>sqlEntityFactRepo.Upsert\<close>: one statement \<open>INSERT ... ON CONFLICT(entity_id, uniq) DO
  UPDATE SET num_times = num_times + 1, date_last_time = ?, date_updated = ?\<close>. On a
  conflict the row in conflict is updated in the three columns that the statement names.
\<close>

definition sqlEntityFactRepo_Upsert ::
  "int \<Rightarrow> string \<Rightarrow> byte list \<Rightarrow> string \<Rightarrow> backend \<Rightarrow> error option \<times> backend" where
  "sqlEntityFactRepo_Upsert entityID content embedding uniq db =
     (let now = clock db
      in case call ''INSERT INTO memori_entity_fact ON CONFLICT DO UPDATE'' db of
           (Some err, db') \<Rightarrow> (Some err, db')
         | (None, db') \<Rightarrow>
             if list_ex (same_fact entityID uniq) (memori_entity_fact db')
             then (None,
                   db'\<lparr>memori_entity_fact :=
                         update_first (same_fact entityID uniq)
                           (\<lambda>r. r\<lparr>f_num_times := f_num_times r + 1,
                                   f_date_last_time := now,
                                   f_date_updated := Some now\<rparr>)
                           (memori_entity_fact db')\<rparr>)
             else (None,
                   db'\<lparr>memori_entity_fact := memori_entity_fact db' @
                         [\<lparr>f_entity_id = entityID, f_content = content,
                           f_content_embedding = embedding, f_num_times = 1,
                           f_date_last_time = now, f_uniq = uniq, f_date_created = now,
                           f_date_updated = None\<rparr>]\<rparr>))"

text \<open>
  \<open>mongoEntityFactRepo.Upsert\<close>: \<open>UpdateOne\<close> with the filter \<open>{entity_id, uniq}\<close> and the
  upsert option. A matching document gets \<open>$set\<close> and \<open>$inc\<close>; when none matches, a
  document is inserted from the filter, \<open>$setOnInsert\<close>, \<open>$set\<close> and \<open>$inc\<close>.
\<close>

definition mongoEntityFactRepo_Upsert ::
  "int \<Rightarrow> string \<Rightarrow> byte list \<Rightarrow> string \<Rightarrow> backend \<Rightarrow> error option \<times> backend" where
  "mongoEntityFactRepo_Upsert entityID content embedding uniq db =
     (let now = clock db
      in case call ''UpdateOne memori_entity_fact'' db of
           (Some err, db') \<Rightarrow> (Some err, db')
         | (None, db') \<Rightarrow>
             if list_ex (same_fact entityID uniq) (memori_entity_fact db')
             then (None,
                   db'\<lparr>memori_entity_fact :=
                         update_first (same_fact entityID uniq)
                           (\<lambda>r. r\<lparr>f_content := content,
                                   f_content_embedding := embedding,
                                   f_date_last_time := now,
                                   f_date_updated := Some now,
                                   f_num_times := f_num_times r + 1\<rparr>)
                           (memori_entity_fact db')\<rparr>)
             else (None,
                   db'\<lparr>memori_entity_fact := memori_entity_fact db' @
                         [\<lparr>f_entity_id = entityID, f_content = content,
                           f_content_embedding = embedding, f_num_times = 1,
                           f_date_last_time = now, f_uniq = uniq, f_date_created = now,
                           f_date_updated = Some now\<rparr>]\<rparr>))"


record FactResult =
  Content :: string
  Score :: float64
  NumTimes :: int
  DateLastTime :: int


fun insert_Slice :: "('a \<Rightarrow> 'a \<Rightarrow> bool) \<Rightarrow> 'a \<Rightarrow> 'a list \<Rightarrow> 'a list" where
  "insert_Slice lt x [] = [x]"
| "insert_Slice lt x (y # ys) = (if lt y x then y # insert_Slice lt x ys else x # y # ys)"

definition sort_Slice :: "('a \<Rightarrow> 'a \<Rightarrow> bool) \<Rightarrow> 'a list \<Rightarrow> 'a list" where
  "sort_Slice lt xs = foldr (insert_Slice lt) xs []"








section \<open>Configuration and the Memori object\<close>

text \<open>
  \<open>Cache\<close> and \<open>Config\<close> (memori/config.go), without the mutexes and without the fields
  that the write path does not read. The session id, a UUID, is held as its text;
  \<open>SessionTTL\<close> is a \<open>time.Duration\<close> in nanoseconds. \<open>Cache\<close> is a field of struct type,
  held in \<open>Config\<close> by value.
\<close>

record Cache =
  ConversationID :: "int option"
  EntityID :: "int option"
  ProcessID :: "int option"
  SessionID :: "int option"

record Config =
  EntityID :: string
  ProcessID :: string
  SessionID :: string
  Cache :: Cache
  SessionTTL :: int
  RecallLimit :: int

record Message =
  Role :: string
  Type :: string
  Content :: string

record ConversationPayload =
  Messages :: "Message list"
  Response :: "Message option"

record AugmentationInput =
  ConversationID :: int
  EntityID :: string
  ProcessID :: string
  Messages :: "Message list"

text \<open>
  \<open>Memori\<close>: the configuration it points to, the storage manager's driver (\<open>None\<close> when no
  connection is bound) and the queue of the augmentation manager. The workers that drain
  the queue run concurrently and are not part of the model.
\<close>

record Memori =
  Config :: Config
  Storage :: "backend option"
  Augmentation :: "AugmentationInput list"





section \<open>The writer\<close>

text \<open>The repositories of the bound driver: \<open>SQLDriver\<close> or \<open>MongoDriver\<close>, by dialect.\<close>

definition Entity_Create :: "string \<Rightarrow> backend \<Rightarrow> (error + int) \<times> backend" where
  "Entity_Create externalID db =
     (if dialect db = Mongodb then mongoEntityRepo_Create externalID db
      else sqlEntityRepo_Create externalID db)"

text \<open>
  The lookup by external id finds a row with internal id \<open>rid\<close>: what
  \<open>GetByExternalID\<close> returns on a backend that reports no fault.
\<close>

definition has_entity :: "string \<Rightarrow> int \<Rightarrow> backend \<Rightarrow> bool" where
  "has_entity e rid db \<longleftrightarrow>
     (\<exists>r. find (\<lambda>r. e_external_id r = e) (memori_entity db) = Some r \<and> e_id r = rid)"

text \<open>A caller that invokes \<open>Identity.create\<close> \<open>n\<close> times in a row and collects the results.\<close>

fun Create_repeatedly :: "nat \<Rightarrow> string \<Rightarrow> backend \<Rightarrow> (error + int) list \<times> backend" where
  "Create_repeatedly 0 externalID db = ([], db)"
| "Create_repeatedly (Suc n) externalID db =
     (let (r, db1) = Entity_Create externalID db;
          (rs, db2) = Create_repeatedly n externalID db1
      in (r # rs, db2))"

definition Process_Create :: "string \<Rightarrow> backend \<Rightarrow> (error + int) \<times> backend" where
  "Process_Create externalID db =
     (if dialect db = Mongodb then mongoProcessRepo_Create externalID db
      else sqlProcessRepo_Create externalID db)"

definition Session_Create ::
  "int option \<Rightarrow> int option \<Rightarrow> string \<Rightarrow> backend \<Rightarrow> (error + int) \<times> backend" where
  "Session_Create entityID processID sessionUUID db =
     (if dialect db = Mongodb then mongoSessionRepo_Create entityID processID sessionUUID db
      else sqlSessionRepo_Create entityID processID sessionUUID db)"

definition Conversation_Create :: "int \<Rightarrow> int \<Rightarrow> backend \<Rightarrow> (error + int) \<times> backend" where
  "Conversation_Create sessionID timeoutMinutes db =
     (if dialect db = Mongodb then mongoConversationRepo_Create sessionID timeoutMinutes db
      else sqlConversationRepo_Create sessionID timeoutMinutes db)"

definition Message_Create ::
  "int \<Rightarrow> string \<Rightarrow> string \<Rightarrow> string \<Rightarrow> backend \<Rightarrow> error option \<times> backend" where
  "Message_Create conversationID role msgType content db =
     (if dialect db = Mongodb then mongoMessageRepo_Create conversationID role msgType content db
      else sqlMessageRepo_Create conversationID role msgType content db)"

text \<open>
  The invariant of the message store, and what a repository call other than
  \<open>Message.Create\<close> leaves as it is: the message table and the dialect. An error that
  comes from the backend or from a lookup is not one made by \<open>errors.New\<close> or a panic.
\<close>

definition no_system_message :: "backend \<Rightarrow> bool" where
  "no_system_message db \<longleftrightarrow> list_all (\<lambda>r. m_role r \<noteq> ''system'') (memori_conversation_message db)"

definition same_messages :: "backend \<Rightarrow> backend \<Rightarrow> bool" where
  "same_messages db db' \<longleftrightarrow>
     memori_conversation_message db' = memori_conversation_message db \<and> dialect db' = dialect db"

fun from_backend :: "error \<Rightarrow> bool" where
  "from_backend (Panic m) = False"
| "from_backend (errors_New m) = False"
| "from_backend e = True"

definition maxRetries :: nat where
  "maxRetries = 3"

definition retryBackoffBase :: int where
  "retryBackoffBase = 100 * Millisecond"

text \<open>\<open>err.Error()\<close>, and the substring test \<open>contains\<close> of the writer.\<close>

fun Error :: "error \<Rightarrow> string" where
  "Error (Panic m) = m"
| "Error ErrNoRows = ''sql: no rows in result set''"
| "Error DuplicateKey = ''duplicate key value violates unique constraint''"
| "Error (Backend m) = m"
| "Error (errors_New m) = m"

function indexOfSubstring_loop :: "string \<Rightarrow> string \<Rightarrow> int \<Rightarrow> int" where
  "indexOfSubstring_loop s substr i =
     (if 0 \<le> i \<and> i \<le> int (length s) - int (length substr)
      then (if take (length substr) (drop (nat i) s) = substr then i
            else indexOfSubstring_loop s substr (i + 1))
      else - 1)"
  by pat_completeness auto
termination
  by (relation "measure (\<lambda>(s, substr, i). nat (int (length s) - int (length substr) - i + 1))") auto

definition indexOfSubstring :: "string \<Rightarrow> string \<Rightarrow> int" where
  "indexOfSubstring s substr = indexOfSubstring_loop s substr 0"

definition contains :: "string \<Rightarrow> string \<Rightarrow> bool" where
  "contains s substr \<longleftrightarrow>
     length s \<ge> length substr \<and> (s = substr \<or> length substr = 0 \<or> indexOfSubstring s substr \<ge> 0)"

definition isRetriableError :: "error option \<Rightarrow> bool" where
  "isRetriableError err =
     (case err of
        None \<Rightarrow> False
      | Some e \<Rightarrow> contains (Error e) ''restart transaction'' \<or> contains (Error e) ''serialization failure'')"

text \<open>
  \<open>Writer.ensureCachedID\<close>. The statement \<open>cache := w.m.Config.Cache\<close> declares a variable
  of struct type \<open>Cache\<close> and copies the field into it; the assignments after \<open>createFunc\<close>
  write to this variable, which is dropped on return. The function returns the result
  of the lookup or of \<open>createFunc\<close>, the backend after it, and the Memori object.
\<close>

definition ensureCachedID ::
  "Memori \<Rightarrow> string \<Rightarrow> (backend \<Rightarrow> (error + int) \<times> backend) \<Rightarrow> backend
     \<Rightarrow> (error + int) \<times> backend \<times> Memori" where
  "ensureCachedID m cacheKey createFunc db =
     (let cache = Cache (Config m);
          cachedID =
            (if cacheKey = ''entity_id'' then Cache.EntityID cache
             else if cacheKey = ''process_id'' then Cache.ProcessID cache
             else if cacheKey = ''session_id'' then Cache.SessionID cache
             else if cacheKey = ''conversation_id'' then Cache.ConversationID cache
             else None)
      in case cachedID of
           Some rid \<Rightarrow> (Inr rid, db, m)
         | None \<Rightarrow>
             (case createFunc db of
                (Inl err, db') \<Rightarrow> (Inl err, db', m)
              | (Inr rid, db') \<Rightarrow>
                  (let cache =
                         (if cacheKey = ''entity_id'' then cache\<lparr>Cache.EntityID := Some rid\<rparr>
                          else if cacheKey = ''process_id'' then cache\<lparr>Cache.ProcessID := Some rid\<rparr>
                          else if cacheKey = ''session_id'' then cache\<lparr>Cache.SessionID := Some rid\<rparr>
                          else if cacheKey = ''conversation_id''
                          then cache\<lparr>Cache.ConversationID := Some rid\<rparr>
                          else cache)
                   in (Inr rid, db', m))))"

text \<open>\<open>AugmentationManager.Enqueue\<close>: a queue of capacity 1000 that drops when full.\<close>

definition Enqueue :: "AugmentationInput \<Rightarrow> AugmentationInput list \<Rightarrow> AugmentationInput list" where
  "Enqueue input queue =
     (if AugmentationInput.EntityID input = [] then queue
      else if length queue < 1000 then queue @ [input]
      else queue)"

text \<open>The loop \<open>for _, msg := range payload.Messages\<close> of \<open>executeTransaction\<close>.\<close>

fun write_messages :: "int \<Rightarrow> Message list \<Rightarrow> backend \<Rightarrow> error option \<times> backend" where
  "write_messages conversationID [] db = (None, db)"
| "write_messages conversationID (msg # msgs) db =
     (if Role msg \<noteq> ''system''
      then (case Message_Create conversationID (Role msg) (Type msg) (Message.Content msg) db of
              (Some err, db') \<Rightarrow> (Some err, db')
            | (None, db') \<Rightarrow> write_messages conversationID msgs db')
      else write_messages conversationID msgs db)"

text \<open>
  \<open>Writer.executeTransaction\<close>, on the repositories \<open>repos\<close> of the bound driver.
  \<open>int(cfg.SessionTTL.Minutes())\<close> is the duration divided by a minute, rounded towards
  zero.
\<close>

definition executeTransaction ::
  "Memori \<Rightarrow> backend \<Rightarrow> ConversationPayload \<Rightarrow> error option \<times> Memori \<times> backend" where
  "executeTransaction m repos payload =
     (let cfg = Config m;
          (entity, db1, m1) =
            (if Config.EntityID cfg \<noteq> []
             then (case ensureCachedID m ''entity_id'' (Entity_Create (Config.EntityID cfg)) repos of
                     (Inl err, db', m') \<Rightarrow> (Inl err, db', m')
                   | (Inr rid, db', m') \<Rightarrow> (Inr (Some rid), db', m'))
             else (Inr None, repos, m))
      in case entity of
           Inl err \<Rightarrow> (Some err, m1, db1)
         | Inr entityID \<Rightarrow>
      (let (process, db2, m2) =
            (if Config.ProcessID cfg \<noteq> []
             then (case ensureCachedID m1 ''process_id'' (Process_Create (Config.ProcessID cfg)) db1 of
                     (Inl err, db', m') \<Rightarrow> (Inl err, db', m')
                   | (Inr rid, db', m') \<Rightarrow> (Inr (Some rid), db', m'))
             else (Inr None, db1, m1))
       in case process of
            Inl err \<Rightarrow> (Some err, m2, db2)
          | Inr processID \<Rightarrow>
      (case ensureCachedID m2 ''session_id''
              (Session_Create entityID processID (Config.SessionID cfg)) db2 of
         (Inl err, db3, m3) \<Rightarrow> (Some err, m3, db3)
       | (Inr sessionID, db3, m3) \<Rightarrow>
      (case ensureCachedID m3 ''conversation_id''
              (Conversation_Create sessionID (SessionTTL cfg sdiv Minute)) db3 of
         (Inl err, db4, m4) \<Rightarrow> (Some err, m4, db4)
       | (Inr conversationID, db4, m4) \<Rightarrow>
      (case write_messages conversationID (ConversationPayload.Messages payload) db4 of
         (Some err, db5) \<Rightarrow> (Some err, m4, db5)
       | (None, db5) \<Rightarrow>
      (let (err, db6) =
             (case Response payload of
                None \<Rightarrow> (None, db5)
              | Some resp \<Rightarrow>
                  Message_Create conversationID (Role resp) (Type resp) (Message.Content resp) db5)
       in case err of
            Some e \<Rightarrow> (Some e, m4, db6)
          | None \<Rightarrow>
              (None,
               m4\<lparr>Augmentation :=
                     Enqueue \<lparr>AugmentationInput.ConversationID = conversationID,
                              AugmentationInput.EntityID = Config.EntityID cfg,
                              AugmentationInput.ProcessID = Config.ProcessID cfg,
                              AugmentationInput.Messages = ConversationPayload.Messages payload\<rparr>
                             (Augmentation m4)\<rparr>,
               db6)))))))"

text \<open>\<open>time.Sleep\<close>: the wall clock advances by the duration.\<close>

definition Sleep :: "int \<Rightarrow> backend \<Rightarrow> backend" where
  "Sleep d db = db\<lparr>clock := clock db + d\<rparr>"

text \<open>
  \<open>Writer.Execute\<close>: the loop \<open>for attempt := 0; attempt < maxRetries; attempt++\<close>, entered
  when a driver is bound. Both drivers implement \<open>storage.Repos\<close>, so the type assertion
  before the loop succeeds.
\<close>

function Execute_loop ::
  "Memori \<Rightarrow> backend \<Rightarrow> ConversationPayload \<Rightarrow> nat \<Rightarrow> error option \<times> Memori \<times> backend" where
  "Execute_loop m repos payload attempt =
     (if attempt < maxRetries
      then (case executeTransaction m repos payload of
              (None, m', repos') \<Rightarrow> (None, m', repos')
            | (Some err, m', repos') \<Rightarrow>
                if isRetriableError (Some err) \<and> attempt < maxRetries - 1
                then Execute_loop m' (Sleep (retryBackoffBase * 2 ^ attempt) repos') payload (attempt + 1)
                else (Some err, m', repos'))
      else (Some (errors_New ''max retries exceeded''), m, repos))"
  by pat_completeness auto
termination
  by (relation "measure (\<lambda>(m, repos, payload, attempt). maxRetries - attempt)") auto

definition Execute :: "Memori \<Rightarrow> ConversationPayload \<Rightarrow> error option \<times> Memori" where
  "Execute m payload =
     (case Storage m of
        None \<Rightarrow> (None, m)
      | Some repos \<Rightarrow>
          (let (err, m', repos') = Execute_loop m repos payload 0
           in (err, m'\<lparr>Storage := Some repos'\<rparr>)))"

section \<open>Verification: the embedding byte encoding\<close>

declare encodeEmbedding_loop.simps [simp del] decodeEmbedding_loop.simps [simp del]

lemma le_word_bytes:
  "(ucast (ucast (v::32 word) :: byte) :: 32 word)
     OR push_bit 8 (ucast (ucast (drop_bit 8 v) :: byte))
     OR push_bit 16 (ucast (ucast (drop_bit 16 v) :: byte))
     OR push_bit 24 (ucast (ucast (drop_bit 24 v) :: byte)) = v"
proof (rule bit_word_eqI)
  fix n :: nat
  assume "n < LENGTH(32)"
  then have n: "n < 32" by simp
  consider "n < 8" | "8 \<le> n" "n < 16" | "16 \<le> n" "n < 24" | "24 \<le> n" "n < 32"
    using n by linarith
  then show "bit (ucast (ucast v :: byte) OR push_bit 8 (ucast (ucast (drop_bit 8 v) :: byte))
     OR push_bit 16 (ucast (ucast (drop_bit 16 v) :: byte))
     OR push_bit 24 (ucast (ucast (drop_bit 24 v) :: byte)) :: 32 word) n = bit v n"
    by cases (auto simp: bit_simps)
qed


lemma update4:
  "n + 3 < length b \<Longrightarrow>
   b[n := x0, n + 1 := x1, n + 2 := x2, n + 3 := x3] = take n b @ [x0, x1, x2, x3] @ drop (n + 4) b"
  apply (rule nth_equalityI)
   apply simp
  apply (auto simp: nth_append nth_list_update nth_Cons' )
  done

lemma encode_loop_eq:
  "i \<le> length v \<Longrightarrow> length b = 4 * length v \<Longrightarrow>
   encodeEmbedding_loop v i b = Inr (take (4 * i) b @ concat (map le_bytes (drop i v)))"
proof (induction v i b rule: encodeEmbedding_loop.induct)
  case (1 v i b)
  show ?case
  proof (cases "i < length v")
    case False
    with 1(2,3) show ?thesis by (subst encodeEmbedding_loop.simps) simp
  next
    case True
    define b' where "b' = take (i * 4) b @ le_bytes (v ! i) @ drop (i * 4 + 4) b"
    have bound: "i * 4 + 3 < length b" using True 1(3) by simp
    have put: "LittleEndian_PutUint32 b (i * 4) (Float32bits (v ! i)) = Inr b'"
      unfolding LittleEndian_PutUint32_def Float32bits_def b'_def le_bytes_def update4 [OF bound]
      using bound by simp
    have len: "length b' = 4 * length v" using 1(3) True by (simp add: b'_def le_bytes_def)
    have IH: "encodeEmbedding_loop v (Suc i) b' = Inr (take (4 * Suc i) b' @ concat (map le_bytes (drop (Suc i) v)))"
      using 1(1)[OF True put] True len by simp
    have tk: "take (4 * Suc i) b' = take (4 * i) b @ le_bytes (v ! i)"
      using True 1(3) by (simp add: b'_def le_bytes_def mult.commute)
    have dr: "drop i v = v ! i # drop (Suc i) v"
      using True by (simp add: Cons_nth_drop_Suc)
    have "encodeEmbedding_loop v i b = encodeEmbedding_loop v (Suc i) b'"
      by (subst encodeEmbedding_loop.simps) (simp add: True put)
    also have "\<dots> = Inr ((take (4 * i) b @ le_bytes (v ! i)) @ concat (map le_bytes (drop (Suc i) v)))"
      unfolding IH tk ..
    also have "\<dots> = Inr (take (4 * i) b @ concat (map le_bytes (drop i v)))"
      unfolding dr by simp
    finally show ?thesis .
  qed
qed


lemma four_prefix: "4 \<le> length xs \<Longrightarrow> \<exists>b0 b1 b2 b3 r. xs = b0 # b1 # b2 # b3 # r"
  by (auto simp: numeral_eq_Suc Suc_le_length_iff)

lemma decode_loop_eq:
  "i \<le> length out \<Longrightarrow> length b = 4 * length out \<Longrightarrow>
   decodeEmbedding_loop b i out =
     Inr (take i out @ map (\<lambda>j. projr (LittleEndian_Uint32 (drop (j * 4) b))) [i..<length out])"
proof (induction b i out rule: decodeEmbedding_loop.induct)
  case (1 b i out)
  show ?case
  proof (cases "i < length out")
    case False
    with 1(2) show ?thesis by (subst decodeEmbedding_loop.simps) simp
  next
    case True
    have "length (drop (i * 4) b) \<ge> 4" using True 1(3) by simp
    then obtain b0 b1 b2 b3 r where d: "drop (i * 4) b = b0 # b1 # b2 # b3 # r"
      using four_prefix by blast
    obtain u where u: "LittleEndian_Uint32 (drop (i * 4) b) = Inr u"
      by (simp add: LittleEndian_Uint32_def d)
    have IH: "decodeEmbedding_loop b (Suc i) (out[i := Float32frombits u]) =
       Inr (take (Suc i) (out[i := Float32frombits u]) @
            map (\<lambda>j. projr (LittleEndian_Uint32 (drop (j * 4) b))) [Suc i..<length out])"
      using 1(1)[OF True u] True 1(3) by simp
    have tk: "take (Suc i) (out[i := Float32frombits u]) = take i out @ [u]"
      using True by (simp add: take_Suc_conv_app_nth Float32frombits_def)
    have "decodeEmbedding_loop b i out = decodeEmbedding_loop b (Suc i) (out[i := Float32frombits u])"
      by (subst decodeEmbedding_loop.simps) (simp add: True u)
    also have "\<dots> = Inr ((take i out @ [u]) @
            map (\<lambda>j. projr (LittleEndian_Uint32 (drop (j * 4) b))) [Suc i..<length out])"
      unfolding IH tk ..
    also have "\<dots> = Inr (take i out @ map (\<lambda>j. projr (LittleEndian_Uint32 (drop (j * 4) b))) [i..<length out])"
      using True u by (simp add: upt_conv_Cons)
    finally show ?thesis .
  qed
qed

lemma Uint32_le_bytes: "LittleEndian_Uint32 (le_bytes w @ r) = Inr w"
  by (simp add: LittleEndian_Uint32_def le_bytes_def le_word_bytes)

lemma length_le_bytes: "length (le_bytes w) = 4"
  by (simp add: le_bytes_def)

lemma drop_concat_le_bytes:
  "j \<le> length v \<Longrightarrow> drop (j * 4) (concat (map le_bytes v)) = concat (map le_bytes (drop j v))"
proof (induction v arbitrary: j)
  case Nil then show ?case by simp
next
  case (Cons a v)
  then show ?case by (cases j) (simp_all add: length_le_bytes)
qed

lemma length_concat_le_bytes: "length (concat (map le_bytes v)) = 4 * length v"
  by (induction v) (simp_all add: length_le_bytes)

lemma embedding_loops:
  "v \<noteq> [] \<Longrightarrow> encodeEmbedding v = Inr (Some (concat (map le_bytes v)))"
  "v \<noteq> [] \<Longrightarrow> decodeEmbedding (concat (map le_bytes v)) = Inr (Some v)"
proof -
  assume v: "v \<noteq> []"
  show "encodeEmbedding v = Inr (Some (concat (map le_bytes v)))"
    using v by (simp add: encodeEmbedding_def encode_loop_eq)
  have "map (\<lambda>j. projr (LittleEndian_Uint32 (drop (j * 4) (concat (map le_bytes v))))) [0..<length v] = v"
  proof (rule nth_equalityI)
    show "length (map (\<lambda>j. projr (LittleEndian_Uint32 (drop (j * 4) (concat (map le_bytes v))))) [0..<length v]) = length v" by simp
  next
    fix i assume "i < length (map (\<lambda>j. projr (LittleEndian_Uint32 (drop (j * 4) (concat (map le_bytes v))))) [0..<length v])"
    then have i: "i < length v" by simp
    then have "drop i v = v ! i # drop (Suc i) v" by (simp add: Cons_nth_drop_Suc)
    then show "map (\<lambda>j. projr (LittleEndian_Uint32 (drop (j * 4) (concat (map le_bytes v))))) [0..<length v] ! i = v ! i"
      using i by (simp add: drop_concat_le_bytes Uint32_le_bytes)
  qed
  then show "decodeEmbedding (concat (map le_bytes v)) = Inr (Some v)"
    using v by (simp add: decodeEmbedding_def length_concat_le_bytes decode_loop_eq)
qed


text \<open>
  C7. Decoding the byte encoding of any float32 vector gives back every component with
  its original bit pattern, and neither function panics: a non-empty vector \<open>v\<close> is returned
  as \<open>v\<close> itself; the empty vector is encoded as the nil slice, of length zero, which is
  decoded as the nil slice. A byte sequence whose length is not a multiple of 4 is decoded
  as nil, without error or panic. The encoding of \<open>v\<close> is the concatenation of the four
  little-endian bytes of each component, with no header.
\<close>

theorem embedding_roundtrip:
  "(\<exists>bs. encodeEmbedding v = Inr bs \<and> elems bs = concat (map le_bytes v) \<and>
         (\<exists>out. decodeEmbedding (elems bs) = Inr out \<and> elems out = v \<and>
                (v \<noteq> [] \<longrightarrow> out = Some v)))
   \<and> (\<exists>bs. encodeEmbedding [] = Inr bs \<and> length (elems bs) = 0)
   \<and> (length b mod 4 \<noteq> 0 \<longrightarrow> decodeEmbedding b = Inr None)"
proof (intro conjI)
  show "\<exists>bs. encodeEmbedding v = Inr bs \<and> elems bs = concat (map le_bytes v) \<and>
         (\<exists>out. decodeEmbedding (elems bs) = Inr out \<and> elems out = v \<and>
                (v \<noteq> [] \<longrightarrow> out = Some v))"
  proof (cases "v = []")
    case True
    then show ?thesis by (simp add: encodeEmbedding_def decodeEmbedding_def elems_def)
  next
    case False
    then show ?thesis by (simp add: embedding_loops elems_def)
  qed
  show "\<exists>bs. encodeEmbedding [] = Inr bs \<and> length (elems bs) = 0"
    by (simp add: encodeEmbedding_def elems_def)
  show "length b mod 4 \<noteq> 0 \<longrightarrow> decodeEmbedding b = Inr None"
    by (simp add: decodeEmbedding_def)
qed

theorem embedding_roundtrip_witness:
  "encodeEmbedding [0x3F800000, 0xC0490FDB] =
     Inr (Some [0x00, 0x00, 0x80, 0x3F, 0xDB, 0x0F, 0x49, 0xC0])
   \<and> decodeEmbedding [0x00, 0x00, 0x80, 0x3F, 0xDB, 0x0F, 0x49, 0xC0] =
     Inr (Some [0x3F800000, 0xC0490FDB])
   \<and> length [1, 2, 3, 4, 5 :: byte] mod 4 \<noteq> 0
   \<and> decodeEmbedding [1, 2, 3, 4, 5] = Inr None"
proof -
  let ?v = "[0x3F800000, 0xC0490FDB] :: float32 list"
  have b: "concat (map le_bytes ?v) = [0x00, 0x00, 0x80, 0x3F, 0xDB, 0x0F, 0x49, 0xC0]"
    by (simp add: le_bytes_def)
  from embedding_roundtrip [of ?v "[1, 2, 3, 4, 5]"]
  obtain bs out where e: "encodeEmbedding ?v = Inr bs" "elems bs = concat (map le_bytes ?v)"
    and d: "decodeEmbedding (elems bs) = Inr out" "out = Some ?v"
    and n: "length [1, 2, 3, 4, 5 :: byte] mod 4 \<noteq> 0 \<longrightarrow> decodeEmbedding [1, 2, 3, 4, 5] = Inr None"
    by blast
  from e(2) have "bs = Some (concat (map le_bytes ?v))"
    by (cases bs) (simp_all add: elems_def le_bytes_def)
  with e d n show ?thesis unfolding b by simp
qed

section \<open>Verification: cosine similarity\<close>

lemma fold_sums:
  "fold (\<lambda>i (d, x, y). (d + f i * g i, x + f i * f i, y + g i * g i)) [0..<n] (d0, x0, y0) =
     (d0 + (\<Sum>i<n. f i * g i), x0 + (\<Sum>i<n. f i * f i), y0 + (\<Sum>i<n. g i * g i :: real))"
  by (induction n) (simp_all add: add.assoc)

lemma fold_cos:
  "fold (\<lambda>i (d, x, y). (d + float64_of (a ! i) * float64_of (b ! i),
                         x + float64_of (a ! i) * float64_of (a ! i),
                         y + float64_of (b ! i) * float64_of (b ! i))) [0..<n] (0, 0, 0) =
     ((\<Sum>i<n. float64_of (a ! i) * float64_of (b ! i)),
      (\<Sum>i<n. float64_of (a ! i) * float64_of (a ! i)),
      (\<Sum>i<n. float64_of (b ! i) * float64_of (b ! i)))"
  using fold_sums [of "\<lambda>i. float64_of (a ! i)" "\<lambda>i. float64_of (b ! i)" n 0 0 0] by simp

lemma cosineSimilarity_sums:
  "cosineSimilarity a b =
     (if a = [] \<or> b = [] \<or> length a \<noteq> length b then 0
      else let dot = (\<Sum>i<length a. float64_of (a ! i) * float64_of (b ! i));
               na = (\<Sum>i<length a. float64_of (a ! i) * float64_of (a ! i));
               nb = (\<Sum>i<length a. float64_of (b ! i) * float64_of (b ! i))
           in if na = 0 \<or> nb = 0 then 0 else dot / (sqrt na * sqrt nb))"
  by (simp add: cosineSimilarity_def Let_def fold_cos)

lemma CosineSimilarity_sums:
  "CosineSimilarity a b =
     (if length a \<noteq> length b then 0
      else let dot = (\<Sum>i<length a. float64_of (a ! i) * float64_of (b ! i));
               na = (\<Sum>i<length a. float64_of (a ! i) * float64_of (a ! i));
               nb = (\<Sum>i<length a. float64_of (b ! i) * float64_of (b ! i))
           in if na = 0 \<or> nb = 0 then 0 else dot / (na * nb))"
  by (simp add: CosineSimilarity_def Let_def fold_cos)

lemma sum_squares_zero_iff:
  "(\<Sum>i<length v. float64_of (v ! i) * float64_of (v ! i)) = 0 \<longleftrightarrow> (\<forall>x\<in>set v. float64_of x = 0)"
proof -
  have "(\<Sum>i<length v. float64_of (v ! i) * float64_of (v ! i)) = 0
        \<longleftrightarrow> (\<forall>i\<in>{..<length v}. float64_of (v ! i) * float64_of (v ! i) = 0)"
    by (rule sum_nonneg_eq_0_iff) simp_all
  also have "\<dots> \<longleftrightarrow> (\<forall>x\<in>set v. float64_of x = 0)"
    by (metis in_set_conv_nth lessThan_iff mult_eq_0_iff)
  finally show ?thesis .
qed

lemma cosineSimilarity_self:
  assumes "\<exists>x\<in>set v. float64_of x \<noteq> 0"
  shows "cosineSimilarity v v = 1"
proof -
  let ?na = "\<Sum>i<length v. float64_of (v ! i) * float64_of (v ! i)"
  have nz: "?na \<noteq> 0" using assms sum_squares_zero_iff [of v] by blast
  have "0 \<le> ?na" by (rule sum_nonneg) simp
  then have "sqrt ?na * sqrt ?na = ?na" by simp
  moreover have "v \<noteq> []" using assms by auto
  ultimately show ?thesis using nz by (simp add: cosineSimilarity_sums Let_def)
qed

lemma cosineSimilarity_zero:
  "length a \<noteq> length b \<or> a = [] \<or> b = [] \<or> (\<forall>x\<in>set a. float64_of x = 0) \<or> (\<forall>x\<in>set b. float64_of x = 0)
   \<Longrightarrow> cosineSimilarity a b = 0"
  using sum_squares_zero_iff [of a] sum_squares_zero_iff [of b]
  by (auto simp: cosineSimilarity_sums Let_def)

lemma CosineSimilarity_zero:
  "length a \<noteq> length b \<or> a = [] \<or> b = [] \<or> (\<forall>x\<in>set a. float64_of x = 0) \<or> (\<forall>x\<in>set b. float64_of x = 0)
   \<Longrightarrow> CosineSimilarity a b = 0"
  using sum_squares_zero_iff [of a] sum_squares_zero_iff [of b]
  by (auto simp: CosineSimilarity_sums Let_def)

lemma CosineSimilarity_self:
  "CosineSimilarity v v = (if \<forall>x\<in>set v. float64_of x = 0 then 0
                           else 1 / (\<Sum>i<length v. float64_of (v ! i) * float64_of (v ! i)))"
  using sum_squares_zero_iff [of v]
  by (auto simp: CosineSimilarity_sums Let_def)

text \<open>
  C8. The cosine similarity of a non-zero vector with itself is 1, and the similarity is
  0 when the lengths differ or an input is empty or all-zero. The function of the storage
  package does this (\<open>cosineSimilarity_self\<close>, \<open>cosineSimilarity_zero\<close>), and both functions
  return 0 in the degenerate cases (\<open>CosineSimilarity_zero\<close>). The function of the embed
  package divides by the product of the squared norms instead of the norms
  (\<open>CosineSimilarity_self\<close>): for the one-component vector \<open>2.0\<close>, whose bit pattern is
  \<open>0x40000000\<close>, it returns \<open>0.25\<close> where the storage function returns \<open>1\<close>. All values in
  this computation are exact in float64.
\<close>

theorem CosineSimilarity_of_two:
  "float64_of 0x40000000 = 2
   \<and> CosineSimilarity [0x40000000] [0x40000000] = 1 / 4
   \<and> cosineSimilarity [0x40000000] [0x40000000] = 1"
  by (simp add: CosineSimilarity_def cosineSimilarity_def float64_of_def Let_def)

section \<open>Verification: the hash embedding\<close>

declare embedText_loop.simps [simp del]

lemma DecodeRune_width:
  "s \<noteq> [] \<Longrightarrow> 1 \<le> snd (DecodeRune s) \<and> snd (DecodeRune s) \<le> length s"
proof (cases s)
  case Nil
  assume "s \<noteq> []" with Nil show ?thesis by simp
next
  case (Cons s0 t)
  show ?thesis unfolding Cons
    by (simp split: list.split)
qed

lemma contribution_bounds: "- 1 < contribution r \<and> contribution r < 1"
proof -
  define val where "val = sint (fnv64a_Write offset64 (EncodeRune r))"
  have "val smod 1000 \<in> {- \<bar>1000\<bar> + 1..\<bar>1000\<bar> - 1}" if "(1000::int) \<noteq> 0"
    using that by (rule smod_int_range)
  then have "- 1000 < val smod 1000" "val smod 1000 < 1000" by auto
  then have "- 1000 < real_of_int (val smod 1000)" "real_of_int (val smod 1000) < 1000"
    by linarith+
  then show ?thesis by (simp add: contribution_def val_def [symmetric] Let_def)
qed

lemma contribution_sign:
  "contribution r < 0 \<longleftrightarrow>
     sint (fnv64a_Write offset64 (EncodeRune r)) < 0 \<and>
     \<not> 1000 dvd sint (fnv64a_Write offset64 (EncodeRune r))"
proof -
  define val where "val = sint (fnv64a_Write offset64 (EncodeRune r))"
  have "val smod 1000 < 0 \<longleftrightarrow> val < 0 \<and> \<not> 1000 dvd val"
  proof (cases "val < 0")
    case True
    have "0 \<le> \<bar>val\<bar> mod 1000" by simp
    moreover have "\<bar>val\<bar> mod 1000 = 0 \<longleftrightarrow> 1000 dvd val"
      by (simp add: dvd_eq_mod_eq_0 [symmetric])
    ultimately show ?thesis using True
      by (simp add: signed_modulo_int_def sgn_if less_le)
  next
    case False
    have "0 \<le> val mod 1000" by simp
    with False show ?thesis by (simp add: signed_modulo_int_def sgn_if not_less)
  qed
  then show ?thesis by (simp add: contribution_def Let_def val_def [symmetric] divide_less_0_iff)
qed

lemma embedText_loop_total:
  "0 < dimen \<Longrightarrow> \<exists>v'. embedText_loop dimen i s v = Inr v' \<and> length v' = length v"
proof (induction dimen i s v rule: embedText_loop.induct)
  case (1 dimen i s v)
  show ?case
  proof (cases "s = []")
    case True
    then show ?thesis by (subst embedText_loop.simps) simp
  next
    case False
    obtain r w where rw: "DecodeRune s = (r, w)" by (cases "DecodeRune s")
    have "\<exists>v'. embedText_loop dimen (i + w) (drop (max 1 w) s)
                  (v[i mod dimen := v ! (i mod dimen) + contribution r]) = Inr v' \<and>
               length v' = length (v[i mod dimen := v ! (i mod dimen) + contribution r])"
      using 1(1) [OF False rw [symmetric] refl _ refl] 1(2) by simp
    then show ?thesis
      using False rw 1(2) by (subst embedText_loop.simps) (simp add: Let_def)
  qed
qed

lemma embedText_total: "\<exists>v. embedText text = Inr v \<and> length v = 64"
  using embedText_loop_total [of 64 0 "map of_char text" "replicate 64 0"]
  by (auto simp: embedText_def Let_def)

lemma embedText_empty: "embedText [] = Inr (replicate 64 0)"
  by (simp add: embedText_def)

lemma fnv64a_of_a: "fnv64a_Write offset64 (EncodeRune 97) = 0xaf63dc4c8601ec8c"
  by (simp add: fnv64a_Write_def offset64_def prime64_def EncodeRune_def)

lemma contribution_of_a: "contribution 97 = - 620 / 1000"
  by (simp add: contribution_def fnv64a_of_a signed_modulo_int_def)

text \<open>
  The position is the byte offset of the rune, not its index among the runes: in the
  three-byte text \<open>C3 A9 61\<close> (an e with acute accent, then \<open>a\<close>) the second rune starts
  at offset 2, and its value is added at position 2 while position 1 stays zero.
\<close>

lemma embedText_byte_offset:
  "\<exists>v. embedText [CHR 0xC3, CHR 0xA9, CHR ''a''] = Inr v \<and> v ! 1 = 0 \<and> v ! 2 = - 620 / 1000"
  apply (simp add: embedText_def embedText_loop.simps contribution_of_a cont_def)
  apply (simp add: numeral_eq_Suc)
  done

text \<open>
  C9. The embedding of a text is the 64-component accumulator to which each rune adds
  a value derived from its own hash; the empty text gives the zero vector
  (\<open>embedText_empty\<close>) and the function never panics (\<open>embedText_total\<close>). The value added
  is claimed to lie in \<open>[0, 1)\<close>. It lies strictly between \<open>-1\<close> and \<open>1\<close>
  (\<open>contribution_bounds\<close>) and is negative whenever the hash, read as a signed 64-bit
  integer, is negative and not a multiple of 1000 (\<open>contribution_sign\<close>). For the text
  \<open>a\<close> the hash is \<open>0xaf63dc4c8601ec8c\<close>, a negative int64, and both implementations
  return a vector whose first component is \<open>-0.62\<close>.
\<close>

theorem embedText_of_a:
  "embedText ''a'' = Inr ((- 620 / 1000) # replicate 63 0)
   \<and> HashEmbedder_embedText NewHashEmbedder ''a'' = Inr ((- 620 / 1000) # replicate 63 0)"
  apply (simp add: embedText_def HashEmbedder_embedText_def NewHashEmbedder_def
      embedText_loop.simps contribution_of_a)
  apply (simp add: numeral_eq_Suc)
  done

section \<open>Verification: attribution\<close>



section \<open>Verification: identity creation\<close>

lemma call_eq:
  "call stmt db =
     ((case faults db of Some m # _ \<Rightarrow> Some (Backend m) | _ \<Rightarrow> None),
      db\<lparr>statements := statements db @ [stmt], faults := tl (faults db)\<rparr>)"
  by (auto simp: call_def Let_def split: list.splits option.splits)

lemma find_append_Some: "find P xs = Some r \<Longrightarrow> find P (xs @ ys) = Some r"
  by (induction xs) auto

lemma find_append_None: "find P xs = None \<Longrightarrow> find P (xs @ ys) = find P ys"
  by (induction xs) (auto split: if_splits)

lemma find_None_iff_ext: "find (\<lambda>r. e_external_id r = e) rows = None \<longleftrightarrow> e \<notin> e_external_id ` set rows"
  by (induction rows) auto

lemma sql_Get:
  "sqlEntityRepo_GetByExternalID e db = (res, db') \<Longrightarrow>
     memori_entity db' = memori_entity db \<and> faults db' = tl (faults db) \<and> dialect db' = dialect db \<and>
     ((\<exists>m. res = Inl (Backend m) \<and> faults db \<noteq> []) \<or>
      (res = (case find (\<lambda>r. e_external_id r = e) (memori_entity db) of
               None \<Rightarrow> Inl ErrNoRows | Some r \<Rightarrow> Inr (e_id r))))"
  by (auto simp: sqlEntityRepo_GetByExternalID_def select_external_def call_eq
           split: list.splits option.splits)


lemma mongo_Get:
  "mongoEntityRepo_GetByExternalID e db = (res, db') \<Longrightarrow>
     memori_entity db' = memori_entity db \<and> faults db' = tl (faults db) \<and> dialect db' = dialect db \<and>
     ((\<exists>m. res = Inl (Backend m) \<and> faults db \<noteq> []) \<or>
      (res = (case find (\<lambda>r. e_external_id r = e) (memori_entity db) of
               None \<Rightarrow> Inl ErrNoRows | Some r \<Rightarrow> Inr (e_id r))))"
  by (auto simp: mongoEntityRepo_GetByExternalID_def select_external_def call_eq
           split: list.splits option.splits)

lemma sql_insert:
  "sql_insert_entity e db = (res, db') \<Longrightarrow>
     faults db' = tl (faults db) \<and> dialect db' = dialect db \<and>
     ((\<exists>m. res = Inl (Backend m) \<and> faults db \<noteq> [] \<and> memori_entity db' = memori_entity db) \<or>
      (res = Inl DuplicateKey \<and> e \<in> set (map e_external_id (memori_entity db)) \<and>
         memori_entity db' = memori_entity db) \<or>
      (\<exists>rid. res = Inr rid \<and> e \<notin> set (map e_external_id (memori_entity db)) \<and>
         memori_entity db' = memori_entity db @
           [\<lparr>e_id = rid, e_external_id = e, e_date_created = clock db\<rparr>]))"
  by (auto simp: sql_insert_entity_def call_eq Let_def split: list.splits option.splits if_splits)

lemma mongo_insert:
  "mongo_insert_entity seq e db = (res, db') \<Longrightarrow>
     faults db' = tl (faults db) \<and> dialect db' = dialect db \<and>
     ((\<exists>m. res = Some (Backend m) \<and> faults db \<noteq> [] \<and> memori_entity db' = memori_entity db) \<or>
      (res = Some DuplicateKey \<and> e \<in> set (map e_external_id (memori_entity db)) \<and>
         memori_entity db' = memori_entity db) \<or>
      (res = None \<and> e \<notin> set (map e_external_id (memori_entity db)) \<and>
         memori_entity db' = memori_entity db @
           [\<lparr>e_id = seq, e_external_id = e, e_date_created = clock db\<rparr>]))"
  by (auto simp: mongo_insert_entity_def call_eq Let_def split: list.splits option.splits if_splits)

lemma nextSeq_result:
  "nextSeq name db = (res, db') \<Longrightarrow>
     faults db' = tl (faults db) \<and> dialect db' = dialect db \<and> memori_entity db' = memori_entity db \<and>
     ((\<exists>m. res = Inl (Backend m) \<and> faults db \<noteq> []) \<or> (\<exists>seq. res = Inr seq))"
  by (auto simp: nextSeq_def call_eq Let_def split: list.splits option.splits if_splits)


lemma has_entity_unique: "has_entity e rid db \<Longrightarrow> has_entity e rid' db \<Longrightarrow> rid' = rid"
  by (auto simp: has_entity_def)

lemma has_entity_cong: "memori_entity db' = memori_entity db \<Longrightarrow> has_entity e rid db \<Longrightarrow> has_entity e rid db'"
  by (simp add: has_entity_def)

lemma has_entity_append:
  "memori_entity db' = memori_entity db @ ys \<Longrightarrow> has_entity e rid db \<Longrightarrow> has_entity e rid db'"
  by (auto simp: has_entity_def find_append_Some)

lemma has_entity_new:
  "memori_entity db' = memori_entity db @ [\<lparr>e_id = rid, e_external_id = e, e_date_created = t\<rparr>] \<Longrightarrow>
   e \<notin> e_external_id ` set (memori_entity db) \<Longrightarrow> has_entity e rid db'"
  by (simp add: has_entity_def find_append_None find_None_iff_ext)

lemma has_entity_present: "has_entity e rid db \<Longrightarrow> e \<in> e_external_id ` set (memori_entity db)"
  using find_None_iff_ext [of e "memori_entity db"] by (auto simp: has_entity_def)

lemma Get_has:
  "res = (case find (\<lambda>r. e_external_id r = e) (memori_entity db) of
               None \<Rightarrow> Inl ErrNoRows | Some r \<Rightarrow> Inr (e_id r)) \<Longrightarrow>
   (res = Inr rid \<longleftrightarrow> has_entity e rid db) \<and> res \<noteq> Inl DuplicateKey \<and>
   (res = Inl ErrNoRows \<longleftrightarrow> e \<notin> e_external_id ` set (memori_entity db)) \<and>
   (\<forall>m. res \<noteq> Inl (Backend m))"
  using find_None_iff_ext [of e "memori_entity db"]
  by (auto simp: has_entity_def split: option.splits)




lemma sql_Get_cases:
  assumes "sqlEntityRepo_GetByExternalID e db = (res, db')"
  obtains (fault) m where "res = Inl (Backend m)" "faults db \<noteq> []"
  | (found) rid where "res = Inr rid" "has_entity e rid db"
  | (norows) "res = Inl ErrNoRows" "e \<notin> e_external_id ` set (memori_entity db)"
proof (cases "find (\<lambda>r. e_external_id r = e) (memori_entity db)")
  case None
  with sql_Get [OF assms] have "(\<exists>m. res = Inl (Backend m) \<and> faults db \<noteq> []) \<or> res = Inl ErrNoRows"
    by simp
  with None fault norows show ?thesis by (auto simp: find_None_iff_ext)
next
  case (Some r)
  with sql_Get [OF assms] have "(\<exists>m. res = Inl (Backend m) \<and> faults db \<noteq> []) \<or> res = Inr (e_id r)"
    by simp
  moreover have "has_entity e (e_id r) db" using Some by (simp add: has_entity_def)
  ultimately show ?thesis using fault found by blast
qed

lemma sql_Get_frame:
  assumes "sqlEntityRepo_GetByExternalID e db = (res, db')"
  shows "memori_entity db' = memori_entity db" "faults db' = tl (faults db)" "dialect db' = dialect db"
  using sql_Get [OF assms] by simp_all

lemma sql_insert_cases:
  assumes "sql_insert_entity e db = (res, db')"
  obtains (fault) m where "res = Inl (Backend m)" "faults db \<noteq> []" "memori_entity db' = memori_entity db"
  | (dup) "res = Inl DuplicateKey" "e \<in> e_external_id ` set (memori_entity db)"
          "memori_entity db' = memori_entity db"
  | (ok) rid where "res = Inr rid" "e \<notin> e_external_id ` set (memori_entity db)"
          "has_entity e rid db'"
proof -
  from sql_insert [OF assms] consider
      m where "res = Inl (Backend m)" "faults db \<noteq> []" "memori_entity db' = memori_entity db"
    | "res = Inl DuplicateKey" "e \<in> e_external_id ` set (memori_entity db)"
          "memori_entity db' = memori_entity db"
    | rid where "res = Inr rid" "e \<notin> e_external_id ` set (memori_entity db)"
         "memori_entity db' = memori_entity db @
           [\<lparr>e_id = rid, e_external_id = e, e_date_created = clock db\<rparr>]"
    by auto
  then show ?thesis
  proof cases
    case 1 then show ?thesis by (rule fault)
  next
    case 2 then show ?thesis by (rule dup)
  next
    case 3
    from 3(3,2) have "has_entity e rid db'" by (rule has_entity_new)
    with 3 show ?thesis by (intro ok)
  qed
qed

lemma sql_insert_frame:
  assumes "sql_insert_entity e db = (res, db')"
  shows "faults db' = tl (faults db)" "dialect db' = dialect db"
        "has_entity e rid db \<Longrightarrow> has_entity e rid db'"
proof -
  from sql_insert [OF assms] show "faults db' = tl (faults db)" "dialect db' = dialect db" by simp_all
  from sql_insert [OF assms] have "\<exists>ys. memori_entity db' = memori_entity db @ ys" by auto
  then show "has_entity e rid db \<Longrightarrow> has_entity e rid db'" by (auto intro: has_entity_append)
qed




lemma sqlCreate_found:
  assumes "sqlEntityRepo_GetByExternalID e db = (Inr rid, db1)"
  shows "sqlEntityRepo_Create e db = (Inr rid, db1)"
  by (simp add: sqlEntityRepo_Create_def assms)

lemma sqlCreate_inserted:
  assumes "sqlEntityRepo_GetByExternalID e db = (Inl x1, db1)"
    and "sql_insert_entity e db1 = (Inr rid, db2)"
  shows "sqlEntityRepo_Create e db = (Inr rid, db2)"
  by (simp add: sqlEntityRepo_Create_def assms)

lemma sqlCreate_fallback:
  assumes "sqlEntityRepo_GetByExternalID e db = (Inl x1, db1)"
    and "sql_insert_entity e db1 = (Inl x2, db2)"
  shows "sqlEntityRepo_Create e db = sqlEntityRepo_GetByExternalID e db2"
  by (simp add: sqlEntityRepo_Create_def assms)

lemma sqlEntityRepo_Create_cases:
  assumes c: "sqlEntityRepo_Create e db = (res, db')"
  obtains (success) rid where "res = Inr rid" "has_entity e rid db'"
  | (failed) m where "res = Inl (Backend m)" "faults db \<noteq> []"
  | (missing) "res = Inl ErrNoRows" "faults db \<noteq> []" "e \<notin> e_external_id ` set (memori_entity db)"
proof -
  obtain r1 db1 where g1: "sqlEntityRepo_GetByExternalID e db = (r1, db1)"
    by (cases "sqlEntityRepo_GetByExternalID e db")
  note F1 = sql_Get_frame [OF g1]
  obtain r2 db2 where i: "sql_insert_entity e db1 = (r2, db2)"
    by (cases "sql_insert_entity e db1")
  note F2 = sql_insert_frame(1,2) [OF i]
  have fallback: thesis
    if x1: "r1 = Inl x1" and nonempty: "faults db \<noteq> []"
      and x2: "r2 = Inl x2" and same: "memori_entity db2 = memori_entity db" for x1 x2
  proof -
    have g3: "sqlEntityRepo_GetByExternalID e db2 = (res, db')"
      using sqlCreate_fallback [OF g1 [unfolded x1] i [unfolded x2]] c by simp
    note F3 = sql_Get_frame [OF g3]
    from g3 show thesis
    proof (cases rule: sql_Get_cases)
      case (found rid)
      from F3(1) found(2) have "has_entity e rid db'" by (rule has_entity_cong)
      with found show thesis by (intro success [of rid])
    next
      case (fault m)
      with nonempty show thesis by (intro failed [of m])
    next
      case norows
      with nonempty same show thesis by (intro missing) simp_all
    qed
  qed
  from g1 show thesis
  proof (cases rule: sql_Get_cases)
    case (found rid)
    have "res = Inr rid" "db' = db1"
      using sqlCreate_found [OF g1 [unfolded found(1)]] c by simp_all
    moreover have "has_entity e rid db1" using F1(1) found(2) by (rule has_entity_cong)
    ultimately show thesis by (intro success [of rid]) simp_all
  next
    case f1: (fault m1)
    from i show thesis
    proof (cases rule: sql_insert_cases)
      case (ok rid)
      have "res = Inr rid" "db' = db2"
        using sqlCreate_inserted [OF g1 [unfolded f1(1)] i [unfolded ok(1)]] c by simp_all
      with ok show thesis by (intro success [of rid]) simp_all
    next
      case (fault m2)
      from fault(3) F1(1) have "memori_entity db2 = memori_entity db" by simp
      with f1(1) f1(2) fault(1) show thesis by (rule fallback)
    next
      case dup
      from dup(3) F1(1) have "memori_entity db2 = memori_entity db" by simp
      with f1(1) f1(2) dup(1) show thesis by (rule fallback)
    qed
  next
    case n1: norows
    from i show thesis
    proof (cases rule: sql_insert_cases)
      case (ok rid)
      have "res = Inr rid" "db' = db2"
        using sqlCreate_inserted [OF g1 [unfolded n1(1)] i [unfolded ok(1)]] c by simp_all
      with ok show thesis by (intro success [of rid]) simp_all
    next
      case (fault m2)
      from fault(2) F1(2) have ne: "faults db \<noteq> []" by (cases "faults db") auto
      from fault(3) F1(1) have "memori_entity db2 = memori_entity db" by simp
      with n1(1) ne fault(1) show thesis by (rule fallback)
    next
      case dup
      with n1 F1 show thesis by simp
    qed
  qed
qed


lemma tl_Nil_imp: "xs = [] \<Longrightarrow> tl xs = []"
  by simp

lemma sqlEntityRepo_Create_frame:
  assumes c: "sqlEntityRepo_Create e db = (res, db')"
  shows "dialect db' = dialect db"
    and "faults db = [] \<Longrightarrow> faults db' = []"
    and "has_entity e rid db \<Longrightarrow> has_entity e rid db'"
proof -
  obtain r1 db1 where g1: "sqlEntityRepo_GetByExternalID e db = (r1, db1)"
    by (cases "sqlEntityRepo_GetByExternalID e db")
  note F1 = sql_Get_frame [OF g1]
  obtain r2 db2 where i: "sql_insert_entity e db1 = (r2, db2)"
    by (cases "sql_insert_entity e db1")
  note F2 = sql_insert_frame [OF i]
  obtain r3 db3 where g3: "sqlEntityRepo_GetByExternalID e db2 = (r3, db3)"
    by (cases "sqlEntityRepo_GetByExternalID e db2")
  note F3 = sql_Get_frame [OF g3]
  have h1: "has_entity e rid db \<Longrightarrow> has_entity e rid db1"
    using F1(1) by (rule has_entity_cong)
  have h2: "has_entity e rid db \<Longrightarrow> has_entity e rid db2"
    using h1 F2(3) by blast
  have h3: "has_entity e rid db \<Longrightarrow> has_entity e rid db3"
    using h2 has_entity_cong [OF F3(1)] by blast
  have "db' = db1 \<or> db' = db2 \<or> db' = db3"
  proof (cases r1)
    case (Inr rid1)
    with sqlCreate_found [of e db rid1 db1] g1 c show ?thesis by simp
  next
    case x1: (Inl x1)
    show ?thesis
    proof (cases r2)
      case (Inr rid2)
      with sqlCreate_inserted [of e db x1 db1 rid2 db2] g1 i x1 c show ?thesis by simp
    next
      case (Inl x2)
      with sqlCreate_fallback [of e db x1 db1 x2 db2] g1 i x1 g3 c show ?thesis by simp
    qed
  qed
  then show "dialect db' = dialect db"
    and "faults db = [] \<Longrightarrow> faults db' = []"
    and "has_entity e rid db \<Longrightarrow> has_entity e rid db'"
    using F1 F2(1,2) F3 h1 h2 h3 by (auto simp: tl_Nil_imp)
qed


lemma mongo_Get_cases:
  assumes "mongoEntityRepo_GetByExternalID e db = (res, db')"
  obtains (fault) m where "res = Inl (Backend m)" "faults db \<noteq> []"
  | (found) rid where "res = Inr rid" "has_entity e rid db"
  | (norows) "res = Inl ErrNoRows" "e \<notin> e_external_id ` set (memori_entity db)"
proof (cases "find (\<lambda>r. e_external_id r = e) (memori_entity db)")
  case None
  with mongo_Get [OF assms] have "(\<exists>m. res = Inl (Backend m) \<and> faults db \<noteq> []) \<or> res = Inl ErrNoRows"
    by simp
  with None fault norows show ?thesis by (auto simp: find_None_iff_ext)
next
  case (Some r)
  with mongo_Get [OF assms] have "(\<exists>m. res = Inl (Backend m) \<and> faults db \<noteq> []) \<or> res = Inr (e_id r)"
    by simp
  moreover have "has_entity e (e_id r) db" using Some by (simp add: has_entity_def)
  ultimately show ?thesis using fault found by blast
qed

lemma mongo_Get_frame:
  assumes "mongoEntityRepo_GetByExternalID e db = (res, db')"
  shows "memori_entity db' = memori_entity db" "faults db' = tl (faults db)" "dialect db' = dialect db"
  using mongo_Get [OF assms] by simp_all

lemma nextSeq_cases:
  assumes "nextSeq name db = (res, db')"
  obtains (fault) m where "res = Inl (Backend m)" "faults db \<noteq> []"
  | (ok) seq where "res = Inr seq"
  using nextSeq_result [OF assms] by blast

lemma nextSeq_frame:
  assumes "nextSeq name db = (res, db')"
  shows "memori_entity db' = memori_entity db" "faults db' = tl (faults db)" "dialect db' = dialect db"
  using nextSeq_result [OF assms] by simp_all

lemma mongo_insert_cases:
  assumes "mongo_insert_entity seq e db = (res, db')"
  obtains (fault) m where "res = Some (Backend m)" "faults db \<noteq> []" "memori_entity db' = memori_entity db"
  | (dup) "res = Some DuplicateKey" "e \<in> e_external_id ` set (memori_entity db)"
          "memori_entity db' = memori_entity db"
  | (ok) "res = None" "e \<notin> e_external_id ` set (memori_entity db)" "has_entity e seq db'"
proof -
  from mongo_insert [OF assms] consider
      m where "res = Some (Backend m)" "faults db \<noteq> []" "memori_entity db' = memori_entity db"
    | "res = Some DuplicateKey" "e \<in> e_external_id ` set (memori_entity db)"
          "memori_entity db' = memori_entity db"
    | "res = None" "e \<notin> e_external_id ` set (memori_entity db)"
         "memori_entity db' = memori_entity db @
           [\<lparr>e_id = seq, e_external_id = e, e_date_created = clock db\<rparr>]"
    by auto
  then show ?thesis
  proof cases
    case 1 then show ?thesis by (rule fault)
  next
    case 2 then show ?thesis by (rule dup)
  next
    case 3
    from 3(3,2) have "has_entity e seq db'" by (rule has_entity_new)
    with 3 show ?thesis by (intro ok)
  qed
qed

lemma mongo_insert_frame:
  assumes "mongo_insert_entity seq e db = (res, db')"
  shows "faults db' = tl (faults db)" "dialect db' = dialect db"
        "has_entity e rid db \<Longrightarrow> has_entity e rid db'"
proof -
  from mongo_insert [OF assms] show "faults db' = tl (faults db)" "dialect db' = dialect db" by simp_all
  from mongo_insert [OF assms] have "\<exists>ys. memori_entity db' = memori_entity db @ ys" by auto
  then show "has_entity e rid db \<Longrightarrow> has_entity e rid db'" by (auto intro: has_entity_append)
qed

lemma mongoCreate_found:
  assumes "mongoEntityRepo_GetByExternalID e db = (Inr rid, db1)"
  shows "mongoEntityRepo_Create e db = (Inr rid, db1)"
  by (simp add: mongoEntityRepo_Create_def assms)

lemma mongoCreate_noseq:
  assumes "mongoEntityRepo_GetByExternalID e db = (Inl x1, db1)"
    and "nextSeq ''memori_entity'' db1 = (Inl x2, db2)"
  shows "mongoEntityRepo_Create e db = (Inl x2, db2)"
  by (simp add: mongoEntityRepo_Create_def assms)

lemma mongoCreate_inserted:
  assumes "mongoEntityRepo_GetByExternalID e db = (Inl x1, db1)"
    and "nextSeq ''memori_entity'' db1 = (Inr seq, db2)"
    and "mongo_insert_entity seq e db2 = (None, db3)"
  shows "mongoEntityRepo_Create e db = (Inr seq, db3)"
  by (simp add: mongoEntityRepo_Create_def assms)

lemma mongoCreate_duplicate:
  assumes "mongoEntityRepo_GetByExternalID e db = (Inl x1, db1)"
    and "nextSeq ''memori_entity'' db1 = (Inr seq, db2)"
    and "mongo_insert_entity seq e db2 = (Some DuplicateKey, db3)"
  shows "mongoEntityRepo_Create e db = mongoEntityRepo_GetByExternalID e db3"
  by (simp add: mongoEntityRepo_Create_def assms IsDuplicateKeyError_def)

lemma mongoCreate_insert_failed:
  assumes "mongoEntityRepo_GetByExternalID e db = (Inl x1, db1)"
    and "nextSeq ''memori_entity'' db1 = (Inr seq, db2)"
    and "mongo_insert_entity seq e db2 = (Some (Backend m), db3)"
  shows "mongoEntityRepo_Create e db = (Inl (Backend m), db3)"
  by (simp add: mongoEntityRepo_Create_def assms IsDuplicateKeyError_def)


lemma tl_nonempty: "tl xs \<noteq> [] \<Longrightarrow> xs \<noteq> []"
  by auto

lemma mongoEntityRepo_Create_cases:
  assumes c: "mongoEntityRepo_Create e db = (res, db')"
  obtains (success) rid where "res = Inr rid" "has_entity e rid db'"
  | (failed) m where "res = Inl (Backend m)" "faults db \<noteq> []"
proof -
  obtain r1 db1 where g1: "mongoEntityRepo_GetByExternalID e db = (r1, db1)"
    by (cases "mongoEntityRepo_GetByExternalID e db")
  note F1 = mongo_Get_frame [OF g1]
  obtain r2 db2 where n: "nextSeq ''memori_entity'' db1 = (r2, db2)"
    by (cases "nextSeq ''memori_entity'' db1")
  note F2 = nextSeq_frame [OF n]
  have rest: thesis if x1: "r1 = Inl x1" for x1
  proof -
    from n show thesis
    proof (cases rule: nextSeq_cases)
      case (fault m2)
      have "res = Inl (Backend m2)"
        using mongoCreate_noseq [OF g1 [unfolded x1] n [unfolded fault(1)]] c by simp
      moreover have "faults db \<noteq> []" using fault(2) F1(2) by (auto dest: tl_nonempty)
      ultimately show thesis by (rule failed)
    next
      case (ok seq)
      obtain r3 db3 where i: "mongo_insert_entity seq e db2 = (r3, db3)"
        by (cases "mongo_insert_entity seq e db2")
      from i show thesis
      proof (cases rule: mongo_insert_cases)
        case ok3: ok
        have "res = Inr seq" "db' = db3"
          using mongoCreate_inserted [OF g1 [unfolded x1] n [unfolded ok(1)] i [unfolded ok3(1)]] c
          by simp_all
        with ok3(3) show thesis by (intro success [of seq]) simp_all
      next
        case (fault m3)
        have "res = Inl (Backend m3)"
          using mongoCreate_insert_failed [OF g1 [unfolded x1] n [unfolded ok(1)] i [unfolded fault(1)]] c
          by simp
        moreover have "faults db \<noteq> []" using fault(2) F1(2) F2(2) by (auto dest: tl_nonempty)
        ultimately show thesis by (rule failed)
      next
        case dup
        have g3: "mongoEntityRepo_GetByExternalID e db3 = (res, db')"
          using mongoCreate_duplicate [OF g1 [unfolded x1] n [unfolded ok(1)] i [unfolded dup(1)]] c
          by simp
        note F3 = mongo_Get_frame [OF g3]
        from g3 show thesis
        proof (cases rule: mongo_Get_cases)
          case (found rid)
          from F3(1) found(2) have "has_entity e rid db'" by (rule has_entity_cong)
          with found(1) show thesis by (rule success)
        next
          case (fault m4)
          have "faults db \<noteq> []"
            using fault(2) F1(2) F2(2) mongo_insert_frame(1) [OF i] by (auto dest: tl_nonempty)
          with fault(1) show thesis by (rule failed)
        next
          case norows
          with dup show thesis by simp
        qed
      qed
    qed
  qed
  from g1 show thesis
  proof (cases rule: mongo_Get_cases)
    case (found rid)
    have "res = Inr rid" "db' = db1"
      using mongoCreate_found [OF g1 [unfolded found(1)]] c by simp_all
    moreover have "has_entity e rid db1" using F1(1) found(2) by (rule has_entity_cong)
    ultimately show thesis by (intro success [of rid]) simp_all
  next
    case (fault m1)
    then show thesis by (intro rest)
  next
    case norows
    then show thesis by (intro rest)
  qed
qed

lemma mongoEntityRepo_Create_frame:
  assumes c: "mongoEntityRepo_Create e db = (res, db')"
  shows "dialect db' = dialect db"
    and "faults db = [] \<Longrightarrow> faults db' = []"
    and "has_entity e rid db \<Longrightarrow> has_entity e rid db'"
proof -
  obtain r1 db1 where g1: "mongoEntityRepo_GetByExternalID e db = (r1, db1)"
    by (cases "mongoEntityRepo_GetByExternalID e db")
  note F1 = mongo_Get_frame [OF g1]
  obtain r2 db2 where n: "nextSeq ''memori_entity'' db1 = (r2, db2)"
    by (cases "nextSeq ''memori_entity'' db1")
  note F2 = nextSeq_frame [OF n]
  obtain seq where seq: "seq = (case r2 of Inr s \<Rightarrow> s | Inl _ \<Rightarrow> 0)" by simp
  obtain r3 db3 where i: "mongo_insert_entity seq e db2 = (r3, db3)"
    by (cases "mongo_insert_entity seq e db2")
  note F3 = mongo_insert_frame [OF i]
  obtain r4 db4 where g4: "mongoEntityRepo_GetByExternalID e db3 = (r4, db4)"
    by (cases "mongoEntityRepo_GetByExternalID e db3")
  note F4 = mongo_Get_frame [OF g4]
  have h1: "has_entity e rid db \<Longrightarrow> has_entity e rid db1"
    using F1(1) by (rule has_entity_cong)
  have h2: "has_entity e rid db \<Longrightarrow> has_entity e rid db2"
    using h1 has_entity_cong [OF F2(1)] by blast
  have h3: "has_entity e rid db \<Longrightarrow> has_entity e rid db3"
    using h2 F3(3) by blast
  have h4: "has_entity e rid db \<Longrightarrow> has_entity e rid db4"
    using h3 has_entity_cong [OF F4(1)] by blast
  have "db' = db1 \<or> db' = db2 \<or> db' = db3 \<or> db' = db4"
  proof (cases r1)
    case (Inr rid1)
    with mongoCreate_found [of e db rid1 db1] g1 c show ?thesis by simp
  next
    case x1: (Inl x1)
    show ?thesis
    proof (cases r2)
      case (Inl x2)
      with mongoCreate_noseq [of e db x1 db1 x2 db2] g1 n x1 c show ?thesis by simp
    next
      case s: (Inr s)
      with seq have [simp]: "seq = s" by simp
      from i show ?thesis
      proof (cases rule: mongo_insert_cases)
        case ok
        with mongoCreate_inserted [of e db x1 db1 s db2 db3] g1 n i x1 s c show ?thesis by simp
      next
        case (fault m)
        with mongoCreate_insert_failed [of e db x1 db1 s db2 m db3] g1 n i x1 s c show ?thesis by simp
      next
        case dup
        with mongoCreate_duplicate [of e db x1 db1 s db2 db3] g1 n i x1 s g4 c show ?thesis by simp
      qed
    qed
  qed
  then show "dialect db' = dialect db"
    and "faults db = [] \<Longrightarrow> faults db' = []"
    and "has_entity e rid db \<Longrightarrow> has_entity e rid db'"
    using F1 F2 F3(1,2) F4 h1 h2 h3 h4 by (auto simp: tl_Nil_imp)
qed


lemma Entity_Create_cases:
  assumes c: "Entity_Create e db = (res, db')"
  obtains (success) rid where "res = Inr rid" "has_entity e rid db'"
  | (failed) m where "res = Inl (Backend m)" "faults db \<noteq> []"
  | (missing) "res = Inl ErrNoRows" "faults db \<noteq> []" "e \<notin> e_external_id ` set (memori_entity db)"
proof (cases "dialect db = Mongodb")
  case True
  with c have "mongoEntityRepo_Create e db = (res, db')" by (simp add: Entity_Create_def)
  then show thesis
  proof (cases rule: mongoEntityRepo_Create_cases)
    case (success rid) then show thesis by (rule that(1))
  next
    case (failed m) then show thesis by (rule that(2))
  qed
next
  case False
  with c have "sqlEntityRepo_Create e db = (res, db')" by (simp add: Entity_Create_def)
  then show thesis
  proof (cases rule: sqlEntityRepo_Create_cases)
    case (success rid) then show thesis by (rule that(1))
  next
    case (failed m) then show thesis by (rule that(2))
  next
    case missing then show thesis by (rule that(3))
  qed
qed

lemma Entity_Create_frame:
  assumes c: "Entity_Create e db = (res, db')"
  shows "dialect db' = dialect db"
    and "faults db = [] \<Longrightarrow> faults db' = []"
    and "has_entity e rid db \<Longrightarrow> has_entity e rid db'"
proof -
  have "mongoEntityRepo_Create e db = (res, db') \<or> sqlEntityRepo_Create e db = (res, db')"
    using c by (simp add: Entity_Create_def split: if_splits)
  then show "dialect db' = dialect db"
    and "faults db = [] \<Longrightarrow> faults db' = []"
    and "has_entity e rid db \<Longrightarrow> has_entity e rid db'"
    by (blast dest: mongoEntityRepo_Create_frame sqlEntityRepo_Create_frame)+
qed

lemma Entity_Create_existing:
  assumes c: "Entity_Create e db = (res, db')" and h: "has_entity e rid db"
  shows "res = Inr rid \<or> (\<exists>m. res = Inl (Backend m) \<and> faults db \<noteq> [])"
  using c
proof (cases rule: Entity_Create_cases)
  case (success rid')
  from Entity_Create_frame(3) [OF c h] success(2) have "rid' = rid" by (rule has_entity_unique)
  with success(1) show ?thesis by simp
next
  case (failed m)
  then show ?thesis by blast
next
  case missing
  with has_entity_present [OF h] show ?thesis by simp
qed

lemma Create_repeatedly_existing:
  "has_entity e rid db \<Longrightarrow>
   \<forall>r\<in>set (fst (Create_repeatedly n e db)). r = Inr rid \<or> (\<exists>m. r = Inl (Backend m))"
proof (induction n arbitrary: db)
  case 0
  show ?case by simp
next
  case (Suc n)
  obtain res db1 where c: "Entity_Create e db = (res, db1)" by (cases "Entity_Create e db")
  obtain rs db2 where r: "Create_repeatedly n e db1 = (rs, db2)" by (cases "Create_repeatedly n e db1")
  from Entity_Create_existing [OF c Suc.prems] have "res = Inr rid \<or> (\<exists>m. res = Inl (Backend m))"
    by blast
  moreover from Suc.IH [OF Entity_Create_frame(3) [OF c Suc.prems]] r
  have "\<forall>r\<in>set rs. r = Inr rid \<or> (\<exists>m. r = Inl (Backend m))" by simp
  ultimately show ?case using c r by simp
qed

lemma Create_repeatedly_reliable:
  "has_entity e rid db \<Longrightarrow> faults db = [] \<Longrightarrow>
   fst (Create_repeatedly n e db) = replicate n (Inr rid)"
proof (induction n arbitrary: db)
  case 0
  show ?case by simp
next
  case (Suc n)
  obtain res db1 where c: "Entity_Create e db = (res, db1)" by (cases "Entity_Create e db")
  obtain rs db2 where r: "Create_repeatedly n e db1 = (rs, db2)" by (cases "Create_repeatedly n e db1")
  from Entity_Create_existing [OF c Suc.prems(1)] Suc.prems(2) have "res = Inr rid" by blast
  moreover from Suc.IH [OF Entity_Create_frame(3) [OF c Suc.prems(1)] Entity_Create_frame(2) [OF c Suc.prems(2)]] r
  have "rs = replicate n (Inr rid)" by simp
  ultimately show ?case using c r by simp
qed

lemma Entity_Create_reliable:
  assumes "faults db = []"
  obtains rid db' where "Entity_Create e db = (Inr rid, db')" "has_entity e rid db'" "faults db' = []"
proof -
  obtain res db' where c: "Entity_Create e db = (res, db')" by (cases "Entity_Create e db")
  from c show thesis
  proof (cases rule: Entity_Create_cases)
    case (success rid)
    with c Entity_Create_frame(2) [OF c assms] show thesis by (intro that [of rid db']) simp_all
  next
    case (failed m)
    with assms show thesis by simp
  next
    case missing
    with assms show thesis by simp
  qed
qed

text \<open>
  C2. On a backend that reports no fault, \<open>Identity.create\<close> of an external id, called any
  number of times in a row from any state of the database and in either dialect, returns
  the same internal id on every call. Whatever faults the backend reports: once a call
  has returned an id, every later call returns that id or the backend's error; and no
  call returns the duplicate-key error, since a refused insertion falls back to the
  lookup.
\<close>

theorem Entity_Create_idempotent:
  "(faults db = [] \<longrightarrow>
      (\<exists>rid. \<forall>n. fst (Create_repeatedly n e db) = replicate n (Inr rid)))
   \<and> (\<forall>rid db1. Entity_Create e db = (Inr rid, db1) \<longrightarrow>
         (\<forall>n. \<forall>r\<in>set (fst (Create_repeatedly n e db1)).
                r = Inr rid \<or> (\<exists>m. r = Inl (Backend m))))
   \<and> fst (Entity_Create e db) \<noteq> Inl DuplicateKey"
proof (intro conjI impI allI)
  assume rel: "faults db = []"
  from rel obtain rid db' where c: "Entity_Create e db = (Inr rid, db')"
    and h: "has_entity e rid db'" and f: "faults db' = []"
    by (rule Entity_Create_reliable)
  have "fst (Create_repeatedly n e db) = replicate n (Inr rid)" for n
  proof (cases n)
    case 0
    then show ?thesis by simp
  next
    case (Suc k)
    obtain rs db2 where r: "Create_repeatedly k e db' = (rs, db2)" by (cases "Create_repeatedly k e db'")
    with Create_repeatedly_reliable [OF h f, of k] have "rs = replicate k (Inr rid)" by simp
    with Suc c r show ?thesis by simp
  qed
  then show "\<exists>rid. \<forall>n. fst (Create_repeatedly n e db) = replicate n (Inr rid)" by blast
next
  fix rid db1 n
  assume c: "Entity_Create e db = (Inr rid, db1)"
  from c have "has_entity e rid db1" by (cases rule: Entity_Create_cases) simp_all
  then show "\<forall>r\<in>set (fst (Create_repeatedly n e db1)). r = Inr rid \<or> (\<exists>m. r = Inl (Backend m))"
    by (rule Create_repeatedly_existing)
next
  obtain res db' where c: "Entity_Create e db = (res, db')" by (cases "Entity_Create e db")
  from c have "res \<noteq> Inl DuplicateKey" by (cases rule: Entity_Create_cases) simp_all
  with c show "fst (Entity_Create e db) \<noteq> Inl DuplicateKey" by simp
qed

lemmas repo_defs =
  Entity_Create_def sqlEntityRepo_Create_def sqlEntityRepo_GetByExternalID_def select_external_def
  sql_insert_entity_def mongoEntityRepo_Create_def mongoEntityRepo_GetByExternalID_def
  mongo_insert_entity_def nextSeq_def call_def IsDuplicateKeyError_def fresh_backend_def Let_def

theorem Entity_Create_idempotent_witness:
  "faults (fresh_backend Sqlite) = []
   \<and> fst (Create_repeatedly 3 ''user-123'' (fresh_backend Sqlite)) = [Inr 1, Inr 1, Inr 1]
   \<and> fst (Entity_Create ''user-123''
          ((fresh_backend Mongodb)\<lparr>faults := [None, None, None, Some ''timeout'', None, None,
                                               Some ''reset'', Some ''reset'']\<rparr>)) = Inr 1
   \<and> fst (Create_repeatedly 3 ''user-123''
          (snd (Entity_Create ''user-123''
             ((fresh_backend Mongodb)\<lparr>faults := [None, None, None, Some ''timeout'', None, None,
                                                  Some ''reset'', Some ''reset'']\<rparr>))))
       = [Inl (Backend ''reset''), Inr 1, Inr 1]"
  using Entity_Create_idempotent [of "fresh_backend Sqlite" "''user-123''"]
    Entity_Create_idempotent [of "(fresh_backend Mongodb)\<lparr>faults := [None, None, None, Some ''timeout'', None, None,
                                               Some ''reset'', Some ''reset'']\<rparr>" "''user-123''"]
  by (simp add: repo_defs numeral_3_eq_3)

section \<open>Verification: fact upsert\<close>

lemma update_first_length [simp]: "length (update_first p f xs) = length xs"
  by (induction xs) auto

lemma update_first_map_key:
  "(\<And>x. p x \<Longrightarrow> k (f x) = k x) \<Longrightarrow> map k (update_first p f xs) = map k xs"
  by (induction xs) auto

lemma update_first_unique:
  assumes "distinct (map k xs)" and "\<And>x. p x \<longleftrightarrow> k x = key"
  shows "update_first p f xs = map (\<lambda>x. if p x then f x else x) xs"
  using assms(1)
proof (induction xs)
  case Nil
  show ?case by simp
next
  case (Cons x xs)
  show ?case
  proof (cases "p x")
    case True
    with Cons.prems assms(2) have "\<forall>y\<in>set xs. \<not> p y" by (auto simp: image_iff)
    then have "map (\<lambda>x. if p x then f x else x) xs = xs" by (induction xs) auto
    with True show ?thesis by simp
  next
    case False
    with Cons show ?thesis by simp
  qed
qed

lemma same_fact_key: "same_fact e u r \<longleftrightarrow> (f_entity_id r, f_uniq r) = (e, u)"
  by (auto simp: same_fact_def)

lemma list_ex_same_fact:
  "list_ex (same_fact e u) rows \<longleftrightarrow> (e, u) \<in> set (map (\<lambda>r. (f_entity_id r, f_uniq r)) rows)"
  by (auto simp: list_ex_iff same_fact_def image_iff)


lemma call_no_fault:
  "no_fault db \<Longrightarrow> call stmt db = (None, db\<lparr>statements := statements db @ [stmt], faults := tl (faults db)\<rparr>)"
  by (auto simp: call_eq no_fault_def split: list.splits option.splits)

lemma call_fault:
  "\<not> no_fault db \<Longrightarrow> \<exists>m. call stmt db = (Some (Backend m), db\<lparr>statements := statements db @ [stmt], faults := tl (faults db)\<rparr>)"
  by (auto simp: call_eq no_fault_def split: list.splits option.splits)

lemma sql_Upsert_facts:
  "memori_entity_fact (snd (sqlEntityFactRepo_Upsert e c emb u db)) =
     (if \<not> no_fault db then memori_entity_fact db
      else if list_ex (same_fact e u) (memori_entity_fact db)
      then update_first (same_fact e u)
             (\<lambda>r. r\<lparr>f_num_times := f_num_times r + 1, f_date_last_time := clock db,
                     f_date_updated := Some (clock db)\<rparr>) (memori_entity_fact db)
      else memori_entity_fact db @
             [\<lparr>f_entity_id = e, f_content = c, f_content_embedding = emb, f_num_times = 1,
               f_date_last_time = clock db, f_uniq = u, f_date_created = clock db,
               f_date_updated = None\<rparr>])"
proof (cases "no_fault db")
  case True
  then show ?thesis by (simp add: sqlEntityFactRepo_Upsert_def Let_def call_no_fault)
next
  case False
  from call_fault [OF False] obtain m where
    "call ''INSERT INTO memori_entity_fact ON CONFLICT DO UPDATE'' db =
      (Some (Backend m), db\<lparr>statements := statements db @ [''INSERT INTO memori_entity_fact ON CONFLICT DO UPDATE''], faults := tl (faults db)\<rparr>)"
    by blast
  with False show ?thesis by (simp add: sqlEntityFactRepo_Upsert_def Let_def)
qed

lemma mongo_Upsert_facts:
  "memori_entity_fact (snd (mongoEntityFactRepo_Upsert e c emb u db)) =
     (if \<not> no_fault db then memori_entity_fact db
      else if list_ex (same_fact e u) (memori_entity_fact db)
      then update_first (same_fact e u)
             (\<lambda>r. r\<lparr>f_content := c, f_content_embedding := emb, f_date_last_time := clock db,
                     f_date_updated := Some (clock db), f_num_times := f_num_times r + 1\<rparr>)
             (memori_entity_fact db)
      else memori_entity_fact db @
             [\<lparr>f_entity_id = e, f_content = c, f_content_embedding = emb, f_num_times = 1,
               f_date_last_time = clock db, f_uniq = u, f_date_created = clock db,
               f_date_updated = Some (clock db)\<rparr>])"
proof (cases "no_fault db")
  case True
  then show ?thesis by (simp add: mongoEntityFactRepo_Upsert_def Let_def call_no_fault)
next
  case False
  from call_fault [OF False] obtain m where
    "call ''UpdateOne memori_entity_fact'' db =
      (Some (Backend m), db\<lparr>statements := statements db @ [''UpdateOne memori_entity_fact''], faults := tl (faults db)\<rparr>)"
    by blast
  with False show ?thesis by (simp add: mongoEntityFactRepo_Upsert_def Let_def)
qed

lemma Upsert_result:
  "fst (sqlEntityFactRepo_Upsert e c emb u db) = None \<longleftrightarrow> no_fault db"
  "fst (mongoEntityFactRepo_Upsert e c emb u db) = None \<longleftrightarrow> no_fault db"
  by (auto simp: sqlEntityFactRepo_Upsert_def mongoEntityFactRepo_Upsert_def Let_def call_eq no_fault_def
      split: list.splits option.splits)


lemma sql_Upsert_unique:
  assumes "unique_facts db"
  shows "unique_facts (snd (sqlEntityFactRepo_Upsert e c emb u db))"
proof -
  have "map (\<lambda>r. (f_entity_id r, f_uniq r))
          (update_first (same_fact e u)
             (\<lambda>r. r\<lparr>f_num_times := f_num_times r + 1, f_date_last_time := clock db,
                     f_date_updated := Some (clock db)\<rparr>) (memori_entity_fact db)) =
        map (\<lambda>r. (f_entity_id r, f_uniq r)) (memori_entity_fact db)"
    by (rule update_first_map_key) simp
  with assms show ?thesis
    unfolding unique_facts_def [of "snd _"] sql_Upsert_facts
    by (simp add: unique_facts_def list_ex_same_fact)
qed

lemma mongo_Upsert_unique:
  assumes "unique_facts db"
  shows "unique_facts (snd (mongoEntityFactRepo_Upsert e c emb u db))"
proof -
  have "map (\<lambda>r. (f_entity_id r, f_uniq r))
          (update_first (same_fact e u)
             (\<lambda>r. r\<lparr>f_content := c, f_content_embedding := emb, f_date_last_time := clock db,
                     f_date_updated := Some (clock db), f_num_times := f_num_times r + 1\<rparr>)
             (memori_entity_fact db)) =
        map (\<lambda>r. (f_entity_id r, f_uniq r)) (memori_entity_fact db)"
    by (rule update_first_map_key) simp
  with assms show ?thesis
    unfolding unique_facts_def [of "snd _"] mongo_Upsert_facts
    by (simp add: unique_facts_def list_ex_same_fact)
qed

text \<open>
  On a conflict, without a fault: the document store replaces content and embedding,
  increments the count by one and refreshes the time, in the one row of the pair.
\<close>

lemma mongo_Upsert_conflict:
  assumes "no_fault db" and "unique_facts db" and "list_ex (same_fact e u) (memori_entity_fact db)"
  shows "mongoEntityFactRepo_Upsert e c emb u db = (None, db') \<Longrightarrow>
         memori_entity_fact db' =
           map (\<lambda>r. if same_fact e u r
                    then r\<lparr>f_content := c, f_content_embedding := emb, f_date_last_time := clock db,
                           f_date_updated := Some (clock db), f_num_times := f_num_times r + 1\<rparr>
                    else r) (memori_entity_fact db)"
proof -
  assume "mongoEntityFactRepo_Upsert e c emb u db = (None, db')"
  then have "memori_entity_fact db' = memori_entity_fact (snd (mongoEntityFactRepo_Upsert e c emb u db))"
    by simp
  also have "\<dots> = update_first (same_fact e u)
             (\<lambda>r. r\<lparr>f_content := c, f_content_embedding := emb, f_date_last_time := clock db,
                     f_date_updated := Some (clock db), f_num_times := f_num_times r + 1\<rparr>)
             (memori_entity_fact db)"
    using assms(1,3) by (simp add: mongo_Upsert_facts)
  also have "\<dots> = map (\<lambda>r. if same_fact e u r
                    then r\<lparr>f_content := c, f_content_embedding := emb, f_date_last_time := clock db,
                           f_date_updated := Some (clock db), f_num_times := f_num_times r + 1\<rparr>
                    else r) (memori_entity_fact db)"
    using assms(2) unfolding unique_facts_def
    by (rule update_first_unique) (rule same_fact_key)
  finally show ?thesis .
qed

text \<open>
  The relational statement increments the count and refreshes the time, and leaves the
  stored content and embedding as they were.
\<close>

lemma sql_Upsert_conflict:
  assumes "no_fault db" and "unique_facts db" and "list_ex (same_fact e u) (memori_entity_fact db)"
  shows "sqlEntityFactRepo_Upsert e c emb u db = (None, db') \<Longrightarrow>
         memori_entity_fact db' =
           map (\<lambda>r. if same_fact e u r
                    then r\<lparr>f_num_times := f_num_times r + 1, f_date_last_time := clock db,
                           f_date_updated := Some (clock db)\<rparr>
                    else r) (memori_entity_fact db)"
proof -
  assume "sqlEntityFactRepo_Upsert e c emb u db = (None, db')"
  then have "memori_entity_fact db' = memori_entity_fact (snd (sqlEntityFactRepo_Upsert e c emb u db))"
    by simp
  also have "\<dots> = update_first (same_fact e u)
             (\<lambda>r. r\<lparr>f_num_times := f_num_times r + 1, f_date_last_time := clock db,
                     f_date_updated := Some (clock db)\<rparr>)
             (memori_entity_fact db)"
    using assms(1,3) by (simp add: sql_Upsert_facts)
  also have "\<dots> = map (\<lambda>r. if same_fact e u r
                    then r\<lparr>f_num_times := f_num_times r + 1, f_date_last_time := clock db,
                           f_date_updated := Some (clock db)\<rparr>
                    else r) (memori_entity_fact db)"
    using assms(2) unfolding unique_facts_def
    by (rule update_first_unique) (rule same_fact_key)
  finally show ?thesis .
qed


text \<open>
  C1. An upsert whose pair \<open>(entity_id, uniq)\<close> is present modifies the row of the pair
  instead of inserting: the count grows by one and the time of last occurrence is
  refreshed in both dialects, and the table never holds two rows of one pair
  (\<open>sql_Upsert_unique\<close>, \<open>mongo_Upsert_unique\<close>, \<open>sql_Upsert_conflict\<close>,
  \<open>mongo_Upsert_conflict\<close>). The content and the embedding are replaced by the values
  of the call in the document store only. Here a fact is stored at time 0 and upserted
  again at time 20 with a new content and embedding under the same fingerprint: the
  relational repository keeps the old content and embedding, the document repository
  stores the new ones.
\<close>

theorem Upsert_conflict_content:
  "memori_entity_fact
     (snd (sqlEntityFactRepo_Upsert 1 ''new'' [2, 0, 0, 0] ''fp''
        ((snd (sqlEntityFactRepo_Upsert 1 ''old'' [1, 0, 0, 0] ''fp'' (fresh_backend Sqlite)))
           \<lparr>clock := 20\<rparr>))) =
     [\<lparr>f_entity_id = 1, f_content = ''old'', f_content_embedding = [1, 0, 0, 0], f_num_times = 2,
       f_date_last_time = 20, f_uniq = ''fp'', f_date_created = 0, f_date_updated = Some 20\<rparr>]
   \<and> memori_entity_fact
     (snd (mongoEntityFactRepo_Upsert 1 ''new'' [2, 0, 0, 0] ''fp''
        ((snd (mongoEntityFactRepo_Upsert 1 ''old'' [1, 0, 0, 0] ''fp'' (fresh_backend Mongodb)))
           \<lparr>clock := 20\<rparr>))) =
     [\<lparr>f_entity_id = 1, f_content = ''new'', f_content_embedding = [2, 0, 0, 0], f_num_times = 2,
       f_date_last_time = 20, f_uniq = ''fp'', f_date_created = 0, f_date_updated = Some 20\<rparr>]"
  by (simp add: sqlEntityFactRepo_Upsert_def mongoEntityFactRepo_Upsert_def call_def Let_def
      fresh_backend_def same_fact_def)

section \<open>Verification: similarity search\<close>



lemma insert_Slice_length [simp]: "length (insert_Slice lt x ys) = Suc (length ys)"
  by (induction ys) auto

lemma insert_Slice_set [simp]: "set (insert_Slice lt x ys) = insert x (set ys)"
  by (induction ys) auto

lemma sort_Slice_length [simp]: "length (sort_Slice lt xs) = length xs"
  by (induction xs) (simp_all add: sort_Slice_def)

lemma sort_Slice_set [simp]: "set (sort_Slice lt xs) = set xs"
  by (induction xs) (simp_all add: sort_Slice_def)

lemma insert_Slice_mset [simp]: "mset (insert_Slice lt x ys) = add_mset x (mset ys)"
  by (induction ys) auto

lemma sort_Slice_mset [simp]: "mset (sort_Slice lt xs) = mset xs"
  by (induction xs) (simp_all add: sort_Slice_def)









lemma take_all_if: "int (length xs) \<le> limit \<Longrightarrow> take (nat limit) xs = xs"
  by simp













end
